theory Spec2Isabelle
  imports Main "HOL-Library.Word" "HOL-Library.Monad_Syntax"
begin

unbundle bit_operations_syntax

section \<open>Common conventions\<close>

text \<open>
  The development follows the C sources \<^verbatim>\<open>netio.c\<close> and \<^verbatim>\<open>endpoint.c\<close>.
  A C \<^verbatim>\<open>char\<close> is a byte; a C string is the list of its bytes before the
  terminating NUL, so \<^verbatim>\<open>strlen\<close> is \<open>length\<close>. Counters and descriptors
  are \<open>int\<close>; the two header fields travel as 32-bit little-endian words (the
  x86-64 Linux ABI the program is built for: 32-bit \<^verbatim>\<open>int\<close>, 64-bit
  \<^verbatim>\<open>size_t\<close>, no padding in \<^verbatim>\<open>MessageHeaderStc\<close>).

  Calls into the operating system are not part of the program. Each model function
  takes the answer the OS gives as an argument, so that a theorem quantifies over
  every answer.
\<close>

type_synonym byte = "8 word"

text \<open>The values of \<^verbatim>\<open>errno\<close> the program tests for, and one for all the others.\<close>

datatype errno_t = EWOULDBLOCK | EINPROGRESS | EINTR | ECHILD | EINVAL | EOTHER

text \<open>
  A call of \<^verbatim>\<open>logmsg(category, fmt, ...)\<close> is recorded as the category, the format
  (without its line end) and the integer arguments; string arguments
  (\<^verbatim>\<open>strerror\<close>) are left out.
\<close>

type_synonym log_entry = "int \<times> string \<times> int list"

definition PRINT_ERROR :: int where "PRINT_ERROR = 1"
definition PRINT_SOCKET :: int where "PRINT_SOCKET = 64"
definition PRINT_OTHER :: int where "PRINT_OTHER = 128"

section \<open>netio.h\<close>

definition STATE_IDLE :: int where "STATE_IDLE = 0"
definition STATE_PENDING :: int where "STATE_PENDING = 1"
definition STATE_READY :: int where "STATE_READY = 2"

datatype tSendMsgTyp = SEND_COMPLETE | SEND_BLOCKED | SEND_FAILURE

datatype tRecvMsgTyp = RECV_COMPLETE | RECV_BLOCKED | RECV_TERMINATED | RECV_FAILURE

text \<open>
  \<^verbatim>\<open>MessageHeaderStc\<close> in memory: \<^verbatim>\<open>msglen\<close> in bytes 0..3, \<^verbatim>\<open>msgix\<close> in
  bytes 4..7.
\<close>

definition enc32 :: "32 word \<Rightarrow> byte list" where
  "enc32 w = [ucast w, ucast (drop_bit 8 w), ucast (drop_bit 16 w), ucast (drop_bit 24 w)]"

definition dec32 :: "byte list \<Rightarrow> 32 word" where
  "dec32 bs = ucast (bs ! 0) OR push_bit 8 (ucast (bs ! 1)) OR
     push_bit 16 (ucast (bs ! 2)) OR push_bit 24 (ucast (bs ! 3))"

definition header_bytes :: "int \<Rightarrow> int \<Rightarrow> byte list" where
  "header_bytes len ix = enc32 (word_of_int len) @ enc32 (word_of_int ix)"

definition header_msglen :: "byte list \<Rightarrow> int" where
  "header_msglen hdr = sint (dec32 (take 4 hdr))"

definition header_msgix :: "byte list \<Rightarrow> int" where
  "header_msgix hdr = sint (dec32 (take 4 (drop 4 hdr)))"

text \<open>The assignment \<^verbatim>\<open>header.msglen = v\<close>.\<close>

definition set_header_msglen :: "byte list \<Rightarrow> int \<Rightarrow> byte list" where
  "set_header_msglen hdr v = enc32 (word_of_int v) @ drop 4 hdr"

section \<open>netio.c: tcp\_send\_message\<close>

text \<open>
  \<^verbatim>\<open>tcp_send_message (sockfd, buffer, msglen, msgix)\<close> builds the header, hands
  header and \<^verbatim>\<open>msglen\<close> bytes of the buffer to one \<^verbatim>\<open>sendmsg\<close> call and
  maps its return value. The OS answer is the pair of \<^verbatim>\<open>sendmsg\<close>'s return
  value \<open>n\<close> and \<^verbatim>\<open>errno\<close>. The second component of the result is what
  reached the socket: the first \<open>n\<close> bytes of the frame when \<open>n > 0\<close>, nothing
  otherwise.
\<close>

definition frame_bytes :: "byte list \<Rightarrow> int \<Rightarrow> int \<Rightarrow> byte list" where
  "frame_bytes buffer msglen msgix = header_bytes msglen msgix @ take (nat msglen) buffer"

definition tcp_send_message ::
  "byte list \<Rightarrow> int \<Rightarrow> int \<Rightarrow> int \<times> errno_t \<Rightarrow> tSendMsgTyp \<times> byte list" where
  "tcp_send_message buffer msglen msgix os =
     (let n = fst os in
      if n > 0 then (SEND_COMPLETE, take (nat n) (frame_bytes buffer msglen msgix))
      else if n < 0 \<and> snd os = EWOULDBLOCK then (SEND_BLOCKED, [])
      else (SEND_FAILURE, []))"

section \<open>netio.c: tcp\_recv\_message\<close>

text \<open>
  The receiving side of a socket is the list of what the OS will present to the coming
  \<^verbatim>\<open>recvmsg\<close> calls: bytes that have arrived together (\<open>RxData\<close>), a failing
  call with its \<^verbatim>\<open>errno\<close> (\<open>RxErr\<close>; \<open>RxErr EWOULDBLOCK\<close> is a moment with
  nothing to read), or the peer's orderly close (\<open>RxClosed\<close>). A socket with no
  events left has nothing to read. How a byte stream is cut into \<open>RxData\<close> events
  and where \<open>RxErr EWOULDBLOCK\<close> stands between them is the split of the stream
  across receive calls.

  \<open>sock_read sock len\<close> is one \<^verbatim>\<open>recvmsg\<close> call with a single buffer of
  \<open>len\<close> bytes: it returns at most \<open>len\<close> of the bytes that have arrived and
  leaves the others in the socket. \<open>recvmsg\<close> adds Linux's check of the buffer
  length: a length above \<^verbatim>\<open>SSIZE_MAX\<close> fails with \<^verbatim>\<open>EINVAL\<close>.
\<close>

datatype rx_event = RxData "byte list" | RxErr errno_t | RxClosed

type_synonym rx_socket = "rx_event list"

datatype recv_ret = RecvBytes "byte list" | RecvZero | RecvErr errno_t

definition SSIZE_MAX :: nat where "SSIZE_MAX = 2 ^ 63 - 1"

fun sock_read :: "rx_socket \<Rightarrow> nat \<Rightarrow> recv_ret \<times> rx_socket" where
  "sock_read [] len = (RecvErr EWOULDBLOCK, [])"
| "sock_read (RxErr e # evs) len = (RecvErr e, evs)"
| "sock_read (RxClosed # evs) len = (RecvZero, RxClosed # evs)"
| "sock_read (RxData bs # evs) len =
     (if bs = [] then sock_read evs len
      else if len = 0 then (RecvZero, RxData bs # evs)
      else if length bs \<le> len then (RecvBytes bs, evs)
      else (RecvBytes (take len bs), RxData (drop len bs) # evs))"

definition recvmsg :: "rx_socket \<Rightarrow> nat \<Rightarrow> recv_ret \<times> rx_socket" where
  "recvmsg sock len = (if SSIZE_MAX < len then (RecvErr EINVAL, sock) else sock_read sock len)"

text \<open>
  The loop of \<^verbatim>\<open>tcp_recv_message\<close>. Its locals are the header (8 bytes, zeroed),
  \<^verbatim>\<open>msg_iov[0]\<close> (where the next bytes go, \<open>base\<close>, and how many fit,
  \<open>len\<close>) and \<^verbatim>\<open>recv_count\<close>. \<open>msglen\<close> is the size of the caller's buffer.
  A write outside the header or outside the caller's buffer is undefined behaviour in C:
  the result is \<open>None\<close> then. Otherwise the result is the status, the caller's
  buffer, the socket and the log lines written. The comparisons with
  \<^verbatim>\<open>sizeof(header)\<close> are made in \<^verbatim>\<open>size_t\<close>, so a negative
  \<^verbatim>\<open>header.msglen\<close> wraps around modulo \<open>2 ^ 64\<close>, also as \<^verbatim>\<open>iov_len\<close>.
\<close>

datatype iov_base = IovHeader nat | IovBuffer nat

definition put_bytes :: "nat \<Rightarrow> byte list \<Rightarrow> byte list \<Rightarrow> byte list option" where
  "put_bytes off bs mem =
     (if off + length bs \<le> length mem
      then Some (take off mem @ bs @ drop (off + length bs) mem) else None)"

fun iov_write :: "iov_base \<Rightarrow> byte list \<Rightarrow> byte list \<Rightarrow> byte list \<Rightarrow> (byte list \<times> byte list) option" where
  "iov_write (IovHeader off) bs header buffer =
     (case put_bytes off bs header of None \<Rightarrow> None | Some header' \<Rightarrow> Some (header', buffer))"
| "iov_write (IovBuffer off) bs header buffer =
     (case put_bytes off bs buffer of None \<Rightarrow> None | Some buffer' \<Rightarrow> Some (header, buffer'))"

definition size_t :: "int \<Rightarrow> nat" where
  "size_t i = nat (i mod 2 ^ 64)"

fun ev_size :: "rx_event \<Rightarrow> nat" where
  "ev_size (RxData bs) = Suc (length bs)"
| "ev_size _ = 1"

definition sock_size :: "rx_socket \<Rightarrow> nat" where
  "sock_size sock = sum_list (map ev_size sock)"

lemma sock_read_bytes_smaller:
  "sock_read sock len = (RecvBytes bs, sock') \<Longrightarrow> sock_size sock' < sock_size sock"
  by (induction sock len rule: sock_read.induct) (auto simp add: sock_size_def split: if_splits)

lemma recvmsg_bytes_smaller:
  "recvmsg sock len = (RecvBytes bs, sock') \<Longrightarrow> sock_size sock' < sock_size sock"
  by (auto simp add: recvmsg_def sock_read_bytes_smaller split: if_splits)

type_synonym recv_result = "tRecvMsgTyp \<times> byte list \<times> rx_socket \<times> log_entry list"

function recv_loop ::
  "rx_socket \<Rightarrow> int \<Rightarrow> byte list \<Rightarrow> byte list \<Rightarrow> iov_base \<Rightarrow> nat \<Rightarrow> nat \<Rightarrow> log_entry list \<Rightarrow>
     recv_result option" where
  "recv_loop sock msglen header buffer base len recv_count lg =
     (case recvmsg sock len of
        (RecvZero, sock') \<Rightarrow> Some (RECV_TERMINATED, buffer, sock', lg)
      | (RecvErr e, sock') \<Rightarrow>
          Some (if e = EWOULDBLOCK then RECV_BLOCKED else RECV_FAILURE, buffer, sock', lg)
      | (RecvBytes bs, sock') \<Rightarrow>
          (case iov_write base bs header buffer of
             None \<Rightarrow> None
           | Some (header1, buffer1) \<Rightarrow>
               if 8 \<le> recv_count + length bs then
                 (let invalid = (msglen < header_msglen header1);
                      lg1 = (if invalid
                             then lg @ [(PRINT_ERROR, ''invalid message header: len = %d, ix = %d'',
                                         [header_msglen header1, header_msgix header1])]
                             else lg);
                      header2 = (if invalid then set_header_msglen header1 msglen else header1)
                  in if (8 + size_t (header_msglen header2)) mod 2 ^ 64 \<le> recv_count + length bs
                     then Some (RECV_COMPLETE, buffer1, sock', lg1)
                     else if recv_count + length bs = 8
                     then recv_loop sock' msglen header2 buffer1 (IovBuffer 0)
                            (size_t (header_msglen header2)) (recv_count + length bs) lg1
                     else recv_loop sock' msglen header2 buffer1
                            (IovBuffer (recv_count + length bs - 8)) (len - length bs)
                            (recv_count + length bs) lg1)
               else recv_loop sock' msglen header1 buffer1 (IovHeader (recv_count + length bs))
                      (8 - (recv_count + length bs)) (recv_count + length bs) lg))"
  by pat_completeness auto
termination
  by (relation "measure (\<lambda>(sock, msglen, header, buffer, base, len, recv_count, lg). sock_size sock)")
    (auto dest: recvmsg_bytes_smaller [OF sym])

definition tcp_recv_message :: "rx_socket \<Rightarrow> byte list \<Rightarrow> int \<Rightarrow> recv_result option" where
  "tcp_recv_message sock buffer msglen =
     recv_loop sock msglen (replicate 8 0) buffer (IovHeader 0) 8 0 []"

section \<open>endpoint.c: data\<close>

text \<open>
  Memory. A pointer is \<open>None\<close> (\<^verbatim>\<open>NULL\<close>) or \<open>Some a\<close> for an address \<open>a\<close>.
  Each struct type has its own heap, a map from the addresses of the live allocations
  to their contents. \<^verbatim>\<open>malloc\<close> is an answer of the environment: \<open>None\<close> when it
  fails, or the address of the new block with the indeterminate contents the block
  starts with. \<^verbatim>\<open>free\<close> removes the address from the heap. Reading or writing
  through \<^verbatim>\<open>NULL\<close> or through an address that is not live is undefined behaviour
  in C; a function of the model returns \<open>None\<close> there, and also where one of its loops
  never ends.
\<close>

type_synonym addr = nat

record tBufferStc =
  b_next :: "addr option"
  b_msgix :: int
  b_msglen :: int
  b_buffer :: "byte list option"

record tServerStc =
  s_next :: "addr option"
  s_prev :: "addr option"
  s_valid :: bool
  s_pid :: int
  s_port :: int

text \<open>
  \<^verbatim>\<open>msglast\<close> and \<^verbatim>\<open>msgfirst\<close> are list heads of which only the \<^verbatim>\<open>next\<close>
  field is used: the fields \<open>c_msglast\<close> and \<open>c_msgfirst\<close> hold that pointer.
\<close>

record tConnectStc =
  c_next :: "addr option"
  c_prev :: "addr option"
  c_sockfd :: int
  c_destport :: int
  c_sendport :: int
  c_state :: int
  c_msgix :: int
  c_sntix :: int
  c_rspix :: int
  c_pndix :: int
  c_msglast :: "addr option"
  c_msgfirst :: "addr option"

text \<open>
  The process state: the three heaps, the globals \<^verbatim>\<open>first_conn_req\<close> and
  \<^verbatim>\<open>first_conn_srv\<close> (list heads: \<^verbatim>\<open>next\<close> is the first entry, \<^verbatim>\<open>prev\<close> the
  last), and what the process has done to the outside: the log lines, the descriptors
  it has closed, the bytes \<^verbatim>\<open>sendmsg\<close> has accepted on each descriptor, and the
  processes it has sent \<^verbatim>\<open>SIGKILL\<close>.
\<close>

record endpoint =
  conn_heap :: "addr \<rightharpoonup> tConnectStc"
  buf_heap :: "addr \<rightharpoonup> tBufferStc"
  srv_heap :: "addr \<rightharpoonup> tServerStc"
  first_conn_req_next :: "addr option"
  first_conn_req_prev :: "addr option"
  first_conn_srv_next :: "addr option"
  first_conn_srv_prev :: "addr option"
  log :: "log_entry list"
  closed :: "int list"
  wire :: "(int \<times> byte list) list"

definition logmsg :: "int \<Rightarrow> string \<Rightarrow> int list \<Rightarrow> endpoint \<Rightarrow> endpoint" where
  "logmsg category fmt args s = s\<lparr>log := log s @ [(category, fmt, args)]\<rparr>"

definition close_fd :: "int \<Rightarrow> endpoint \<Rightarrow> endpoint" where
  "close_fd fd s = s\<lparr>closed := closed s @ [fd]\<rparr>"

text \<open>Writing a field of a live connection entry: \<^verbatim>\<open>p->field = v\<close>.\<close>

definition conn_update :: "addr \<Rightarrow> (tConnectStc \<Rightarrow> tConnectStc) \<Rightarrow> endpoint \<Rightarrow> endpoint option" where
  "conn_update a f s =
     (case conn_heap s a of
        None \<Rightarrow> None
      | Some c \<Rightarrow> Some (s\<lparr>conn_heap := (conn_heap s)(a \<mapsto> f c)\<rparr>))"

section \<open>endpoint.c: the connection list\<close>

definition init_connections :: "endpoint \<Rightarrow> endpoint" where
  "init_connections s = s\<lparr>first_conn_req_next := None, first_conn_req_prev := None\<rparr>"

text \<open>The loop of \<^verbatim>\<open>find_connection\<close>, from the entry \<open>endpt\<close> on.\<close>

partial_function (option) find_from ::
  "(addr \<rightharpoonup> tConnectStc) \<Rightarrow> addr option \<Rightarrow> int \<Rightarrow> addr option option" where
  "find_from h endpt destport =
     (case endpt of
        None \<Rightarrow> Some None
      | Some a \<Rightarrow>
          (case h a of
             None \<Rightarrow> None
           | Some c \<Rightarrow>
               if c_destport c = destport then Some (Some a)
               else find_from h (c_next c) destport))"

definition find_connection :: "int \<Rightarrow> endpoint \<Rightarrow> addr option option" where
  "find_connection destport s = find_from (conn_heap s) (first_conn_req_next s) destport"


section \<open>netio.c: creating, connecting and accepting sockets\<close>

text \<open>
  The answers of the OS to the calls of \<^verbatim>\<open>tcp_create_socket\<close>: the return values
  of \<^verbatim>\<open>socket\<close>, \<^verbatim>\<open>bind\<close>, \<^verbatim>\<open>fcntl\<close> and \<^verbatim>\<open>listen\<close>, and for each
  \<^verbatim>\<open>getsockopt\<close> its return value and the size it reports.
\<close>

record create_os =
  os_socket :: int
  os_bind :: int
  os_fcntl :: int
  os_rcvbuf :: "int \<times> int"
  os_sndbuf :: "int \<times> int"
  os_listen :: int

definition tcp_create_socket :: "int \<Rightarrow> create_os \<Rightarrow> endpoint \<Rightarrow> int \<times> endpoint" where
  "tcp_create_socket portno os s =
     (let sockfd = os_socket os in
      if sockfd < 0 then (- 1, logmsg PRINT_ERROR ''socket open: %s'' [] s)
      else if portno > 0 \<and> os_bind os < 0
      then (- 1, close_fd sockfd (logmsg PRINT_ERROR ''socket bind: %s'' [] s))
      else if os_fcntl os < 0
      then (- 1, close_fd sockfd (logmsg PRINT_ERROR ''socket set to non-block: %s'' [] s))
      else if fst (os_rcvbuf os) < 0
      then (- 1, close_fd sockfd (logmsg PRINT_ERROR ''socket getsockopt SO_RCVBUF: %s'' [] s))
      else if fst (os_sndbuf os) < 0
      then (- 1, close_fd sockfd (logmsg PRINT_ERROR ''socket getsockopt SO_SNDBUF: %s'' [] s))
      else if portno > 0 then
        (if os_listen os < 0
         then (- 1, close_fd sockfd (logmsg PRINT_ERROR ''socket listen: %s'' [] s))
         else (sockfd, logmsg PRINT_SOCKET
                 ''server socket listening on port: %u (rcvbuf = %u, sndbuf = %u)''
                 [portno, snd (os_rcvbuf os), snd (os_sndbuf os)] s))
      else (sockfd, logmsg PRINT_SOCKET ''client socket created: (rcvbuf = %u, sndbuf = %u)''
                 [snd (os_rcvbuf os), snd (os_sndbuf os)] s))"

text \<open>
  \<^verbatim>\<open>tcp_connect_to_server\<close>; the OS answer is the return value of \<^verbatim>\<open>connect\<close>
  and \<^verbatim>\<open>errno\<close>.
\<close>

definition tcp_connect_to_server :: "int \<Rightarrow> int \<Rightarrow> int \<times> errno_t \<Rightarrow> endpoint \<Rightarrow> int \<times> endpoint" where
  "tcp_connect_to_server clientsock portno os s =
     (if portno \<le> 0
      then (STATE_IDLE, logmsg PRINT_ERROR
              ''invalid port selection: must specify destination port for this connection'' [] s)
      else if fst os < 0 then
        (if snd os = EINPROGRESS
         then (STATE_PENDING, logmsg PRINT_SOCKET ''socket connect (port %u): in progress'' [portno] s)
         else (STATE_IDLE, logmsg PRINT_ERROR ''socket connect (port %u): %s'' [portno] s))
      else (STATE_READY, logmsg PRINT_SOCKET ''socket connect (port %u): complete'' [portno] s))"

text \<open>
  \<^verbatim>\<open>tcp_accept_connection\<close>; the OS answer is the return value of \<^verbatim>\<open>accept\<close> and
  the peer's port. The second component of the result is the value written to
  \<^verbatim>\<open>*portno\<close>, if one is written.
\<close>

definition tcp_accept_connection :: "int \<times> int \<Rightarrow> endpoint \<Rightarrow> int \<times> int option \<times> endpoint" where
  "tcp_accept_connection os s =
     (if fst os < 0
      then (fst os, None, logmsg PRINT_ERROR ''socket accept (port %u): %s'' [snd os] s)
      else (fst os, Some (snd os), s))"

section \<open>endpoint.c: add\_connection and rem\_connection\<close>

definition add_connection ::
  "int \<Rightarrow> (addr \<times> tConnectStc) option \<Rightarrow> create_os \<Rightarrow> int \<times> errno_t \<Rightarrow> endpoint \<Rightarrow>
     (addr option \<times> endpoint) option" where
  "add_connection destport m cs co s =
     (case find_connection destport s of
        None \<Rightarrow> None
      | Some (Some found) \<Rightarrow> Some (None, logmsg PRINT_ERROR ''%u already connected'' [destport] s)
      | Some None \<Rightarrow>
          (let lastc = first_conn_req_prev s in
           case m of
             None \<Rightarrow> Some (None, logmsg PRINT_ERROR
                        ''memory allocation failure adding %u to connection list'' [destport] s)
           | Some (connection, junk) \<Rightarrow>
               (let s1 = s\<lparr>conn_heap := (conn_heap s)(connection \<mapsto> junk)\<rparr>;
                    (sockfd, s2) = tcp_create_socket 0 cs s1
                in if sockfd < 0
                   then Some (None, s2\<lparr>conn_heap := (conn_heap s2)(connection := None)\<rparr>)
                   else
                     (let (state, s3) = tcp_connect_to_server sockfd destport co s2
                      in if state = STATE_IDLE
                         then Some (None, close_fd sockfd
                                (s3\<lparr>conn_heap := (conn_heap s3)(connection := None)\<rparr>))
                         else
                           (let c = junk\<lparr>c_sockfd := sockfd, c_destport := destport,
                                      c_state := state, c_msgfirst := None, c_msglast := None,
                                      c_msgix := 0, c_sntix := 0, c_rspix := 0, c_pndix := 0,
                                      c_next := None\<rparr>;
                                s4 = s3\<lparr>conn_heap := (conn_heap s3)(connection \<mapsto> c),
                                       first_conn_req_prev := Some connection\<rparr>
                            in case lastc of
                                 Some l \<Rightarrow>
                                   do {
                                     s5 \<leftarrow> conn_update l (\<lambda>x. x\<lparr>c_next := Some connection\<rparr>) s4;
                                     s6 \<leftarrow> conn_update connection (\<lambda>x. x\<lparr>c_prev := Some l\<rparr>) s5;
                                     Some (Some connection, s6)
                                   }
                               | None \<Rightarrow>
                                   do {
                                     s5 \<leftarrow> conn_update connection (\<lambda>x. x\<lparr>c_prev := None\<rparr>)
                                            (s4\<lparr>first_conn_req_next := Some connection\<rparr>);
                                     Some (Some connection, s5)
                                   })))))"

text \<open>
  The body of the loop of \<^verbatim>\<open>rem_connection\<close> for the entry \<open>connection\<close> (with
  contents \<open>c\<close>) whose port matches: close, unlink, free.
\<close>

definition unlink_connection :: "addr \<Rightarrow> tConnectStc \<Rightarrow> endpoint \<Rightarrow> endpoint option" where
  "unlink_connection connection c s =
     (let s1 = logmsg PRINT_OTHER ''closing and removing connection to port %u'' [c_destport c] s;
          s2 = (if c_sockfd c \<ge> 0 then close_fd (c_sockfd c) s1 else s1)
      in do {
        s3 \<leftarrow>
          (case (c_next c, c_prev c) of
             (None, None) \<Rightarrow> Some (s2\<lparr>first_conn_req_next := None, first_conn_req_prev := None\<rparr>)
           | (Some next, None) \<Rightarrow>
               conn_update next (\<lambda>x. x\<lparr>c_prev := None\<rparr>) (s2\<lparr>first_conn_req_next := Some next\<rparr>)
           | (None, Some prev) \<Rightarrow>
               conn_update prev (\<lambda>x. x\<lparr>c_next := None\<rparr>) (s2\<lparr>first_conn_req_prev := Some prev\<rparr>)
           | (Some next, Some prev) \<Rightarrow>
               do {
                 s' \<leftarrow> conn_update next (\<lambda>x. x\<lparr>c_prev := Some prev\<rparr>) s2;
                 conn_update prev (\<lambda>x. x\<lparr>c_next := Some next\<rparr>) s'
               });
        Some (s3\<lparr>conn_heap := (conn_heap s3)(connection := None)\<rparr>)
      })"

partial_function (option) rem_from :: "addr option \<Rightarrow> int \<Rightarrow> endpoint \<Rightarrow> endpoint option" where
  "rem_from connection destport s =
     (case connection of
        None \<Rightarrow> Some (logmsg PRINT_ERROR ''Connection to %u not found'' [destport] s)
      | Some a \<Rightarrow>
          (case conn_heap s a of
             None \<Rightarrow> None
           | Some c \<Rightarrow>
               if c_destport c = destport then unlink_connection a c s
               else rem_from (c_next c) destport s))"

definition rem_connection :: "int \<Rightarrow> endpoint \<Rightarrow> endpoint option" where
  "rem_connection destport s = rem_from (first_conn_req_next s) destport s"


section \<open>endpoint.c: the send queue\<close>

text \<open>
  A queue is reached through two list heads, \<^verbatim>\<open>firstptr\<close> and \<^verbatim>\<open>lastptr\<close>; only
  their \<^verbatim>\<open>next\<close> fields are used. The model passes a pointer to a list head as
  \<open>None\<close> (\<^verbatim>\<open>NULL\<close>) or \<open>Some p\<close>, \<open>p\<close> being the head's \<^verbatim>\<open>next\<close> field, and
  a function that writes the heads returns them. The message block of an entry is kept
  in the entry: \<open>b_buffer\<close> is \<open>None\<close> for a \<^verbatim>\<open>NULL\<close> buffer pointer and otherwise
  the string.

  \<^verbatim>\<open>add_message\<close> calls \<^verbatim>\<open>malloc\<close> twice: \<open>m1\<close> is the answer for the entry,
  \<open>m2\<close> tells whether the block for the message is allocated.
\<close>

type_synonym anchor = "addr option"

definition add_message ::
  "anchor option \<Rightarrow> anchor option \<Rightarrow> int \<Rightarrow> byte list option \<Rightarrow> (addr \<times> tBufferStc) option \<Rightarrow> bool \<Rightarrow>
     endpoint \<Rightarrow> (int \<times> anchor option \<times> anchor option \<times> endpoint) option" where
  "add_message firstptr lastptr msgix buffer m1 m2 s =
     (case (buffer, firstptr, lastptr) of
        (Some buf, Some qfirst, Some qlast) \<Rightarrow>
          (case m1 of
             None \<Rightarrow> Some (- 1, firstptr, lastptr,
                        logmsg PRINT_ERROR ''memory allocation for send queue'' [] s)
           | Some (msg_buff, junk) \<Rightarrow>
               (let s1 = s\<lparr>buf_heap := (buf_heap s)(msg_buff \<mapsto> junk)\<rparr>
                in if \<not> m2
                   then (let s2 = logmsg PRINT_ERROR ''memory allocation for message'' [] s1
                         in Some (- 1, firstptr, lastptr,
                                  s2\<lparr>buf_heap := (buf_heap s2)(msg_buff := None)\<rparr>))
                   else
                     (let s2 = s1\<lparr>buf_heap := (buf_heap s1)(msg_buff \<mapsto>
                                  junk\<lparr>b_buffer := Some buf, b_msgix := msgix, b_next := None\<rparr>)\<rparr>
                      in case qlast of
                           Some l \<Rightarrow>
                             (case buf_heap s2 l of
                                None \<Rightarrow> None
                              | Some e \<Rightarrow>
                                  Some (0, firstptr, Some (Some msg_buff),
                                        s2\<lparr>buf_heap := (buf_heap s2)(l \<mapsto> e\<lparr>b_next := Some msg_buff\<rparr>)\<rparr>))
                         | None \<Rightarrow> Some (0, Some (Some msg_buff), Some (Some msg_buff), s2))))
      | _ \<Rightarrow> Some (- 1, firstptr, lastptr, s))"

definition rem_message ::
  "anchor option \<Rightarrow> anchor option \<Rightarrow> endpoint \<Rightarrow> (anchor option \<times> anchor option \<times> endpoint) option" where
  "rem_message firstptr lastptr s =
     (case (firstptr, lastptr) of
        (Some qfirst, Some qlast) \<Rightarrow>
          (case qfirst of
             None \<Rightarrow> Some (firstptr, lastptr, s)
           | Some pending \<Rightarrow>
               (case buf_heap s pending of
                  None \<Rightarrow> None
                | Some e \<Rightarrow>
                    Some (Some (b_next e),
                          Some (if b_next e = None then None else qlast),
                          s\<lparr>buf_heap := (buf_heap s)(pending := None)\<rparr>)))
      | _ \<Rightarrow> Some (firstptr, lastptr, s))"

text \<open>
  The \<^verbatim>\<open>while\<close> loop of \<^verbatim>\<open>get_message\<close>; \<open>pending\<close> is the first entry,
  \<open>qlast\<close> the \<^verbatim>\<open>next\<close> field of the last-entry head. The result is the pointer
  returned, the two heads and the state.
\<close>

partial_function (option) get_message_loop ::
  "addr \<Rightarrow> anchor \<Rightarrow> endpoint \<Rightarrow> (addr option \<times> anchor \<times> anchor \<times> endpoint) option" where
  "get_message_loop pending qlast s =
     (case buf_heap s pending of
        None \<Rightarrow> None
      | Some e \<Rightarrow>
          if b_buffer e = None then
            (let s1 = logmsg PRINT_ERROR ''NULL buffer in sending queue list (msgix %d)'' [b_msgix e] s;
                 last' = (if b_next e = None then None else qlast);
                 s2 = s1\<lparr>buf_heap := (buf_heap s1)(pending := None)\<rparr>
             in case b_next e of
                  None \<Rightarrow> Some (None, None, last', s2)
                | Some p \<Rightarrow> get_message_loop p last' s2)
          else Some (Some pending, Some pending, qlast, s))"

definition get_message ::
  "anchor option \<Rightarrow> anchor option \<Rightarrow> endpoint \<Rightarrow>
     (addr option \<times> anchor option \<times> anchor option \<times> endpoint) option" where
  "get_message firstptr lastptr s =
     (case (firstptr, lastptr) of
        (Some qfirst, Some qlast) \<Rightarrow>
          (case qfirst of
             None \<Rightarrow> Some (None, firstptr, lastptr, s)
           | Some pending \<Rightarrow>
               (case get_message_loop pending qlast s of
                  None \<Rightarrow> None
                | Some (r, first', last', s') \<Rightarrow> Some (r, Some first', Some last', s')))
      | _ \<Rightarrow> Some (None, firstptr, lastptr, s))"

section \<open>endpoint.c: send\_message\<close>

text \<open>
  The list heads of a connection's queue are fields of the connection entry: a call
  with \<^verbatim>\<open>&connection->msgfirst\<close> and \<^verbatim>\<open>&connection->msglast\<close> reads the two
  fields, and what the callee has written to the heads is stored back into the entry.
\<close>

definition queue_heads :: "addr \<Rightarrow> endpoint \<Rightarrow> (anchor option \<times> anchor option) option" where
  "queue_heads connection s =
     (case conn_heap s connection of
        None \<Rightarrow> None
      | Some c \<Rightarrow> Some (Some (c_msgfirst c), Some (c_msglast c)))"

definition set_queue_heads :: "addr \<Rightarrow> anchor option \<Rightarrow> anchor option \<Rightarrow> endpoint \<Rightarrow> endpoint option" where
  "set_queue_heads connection firstptr lastptr s =
     (case (firstptr, lastptr) of
        (Some qfirst, Some qlast) \<Rightarrow>
          conn_update connection (\<lambda>c. c\<lparr>c_msgfirst := qfirst, c_msglast := qlast\<rparr>) s
      | _ \<Rightarrow> None)"

text \<open>
  \<^verbatim>\<open>send_message (connection, buffer)\<close>. \<open>os\<close> is the answer of \<^verbatim>\<open>sendmsg\<close>,
  \<open>m1\<close> and \<open>m2\<close> the answers of \<^verbatim>\<open>malloc\<close> in \<^verbatim>\<open>add_message\<close> (which runs at
  most once in a call). The descriptor and the bytes \<^verbatim>\<open>sendmsg\<close> has accepted are
  appended to \<open>wire\<close>.
\<close>

definition send_message ::
  "addr \<Rightarrow> byte list option \<Rightarrow> int \<times> errno_t \<Rightarrow> (addr \<times> tBufferStc) option \<Rightarrow> bool \<Rightarrow> endpoint \<Rightarrow>
     (int \<times> endpoint) option" where
  "send_message connection buffer os m1 m2 s =
     do {
       (firstptr, lastptr) \<leftarrow> queue_heads connection s;
       (pending, firstptr1, lastptr1, s1) \<leftarrow> get_message firstptr lastptr s;
       s2 \<leftarrow> set_queue_heads connection firstptr1 lastptr1 s1;
       c2 \<leftarrow> conn_heap s2 connection;
       (case (pending, buffer) of
          (None, None) \<Rightarrow> Some (- 1, s2)
        | _ \<Rightarrow>
          do {
            s3 \<leftarrow>
              (if pending \<noteq> None \<and> buffer \<noteq> None then
                 do {
                   (retcode, firstptr2, lastptr2, s') \<leftarrow>
                      add_message firstptr1 lastptr1 (c_msgix c2) buffer m1 m2 s2;
                   s'' \<leftarrow> set_queue_heads connection firstptr2 lastptr2 s';
                   if retcode \<noteq> 0 then rem_connection (c_destport c2) s'' else Some s''
                 }
               else Some s2);
            buffer1 \<leftarrow>
              (case pending of
                 Some p \<Rightarrow> (case buf_heap s3 p of None \<Rightarrow> None | Some e \<Rightarrow> b_buffer e)
               | None \<Rightarrow> buffer);
            c3 \<leftarrow> conn_heap s3 connection;
            (let (send_error, bytes) =
                   tcp_send_message buffer1 (int (length buffer1)) (c_msgix c3) os
             in case send_error of
                  SEND_BLOCKED \<Rightarrow>
                    do {
                      s4 \<leftarrow> Some (logmsg PRINT_ERROR ''socket sendmsg (port %u): blocked'' [c_destport c3] s3);
                      s5 \<leftarrow>
                        (if pending = None then
                           do {
                             (firstptr3, lastptr3) \<leftarrow> queue_heads connection s4;
                             (retcode, firstptr4, lastptr4, s') \<leftarrow>
                                add_message firstptr3 lastptr3 (c_msgix c3) (Some buffer1) m1 m2 s4;
                             set_queue_heads connection firstptr4 lastptr4 s'
                           }
                         else Some s4);
                      s6 \<leftarrow> conn_update connection (\<lambda>c. c\<lparr>c_pndix := c_pndix c + 1\<rparr>) s5;
                      Some (- 1, s6)
                    }
                | SEND_FAILURE \<Rightarrow>
                    do {
                      s4 \<leftarrow> Some (logmsg PRINT_ERROR ''socket sendmsg (port %u): %s'' [c_destport c3] s3);
                      s5 \<leftarrow> rem_connection (c_destport c3) s4;
                      Some (- 1, s5)
                    }
                | SEND_COMPLETE \<Rightarrow>
                    do {
                      s4 \<leftarrow> conn_update connection (\<lambda>c. c\<lparr>c_sntix := c_sntix c + 1\<rparr>)
                             (s3\<lparr>wire := wire s3 @ [(c_sockfd c3, bytes)]\<rparr>);
                      s5 \<leftarrow>
                        (if pending \<noteq> None then
                           do {
                             (firstptr3, lastptr3) \<leftarrow> queue_heads connection s4;
                             (firstptr4, lastptr4, s') \<leftarrow> rem_message firstptr3 lastptr3 s4;
                             set_queue_heads connection firstptr4 lastptr4 s'
                           }
                         else Some s4);
                      Some (0, s5)
                    })
          })
     }"

text \<open>
  The loop \<^verbatim>\<open>while (! send_message (connection, 0)) { }\<close> of \<^verbatim>\<open>main\<close>. \<open>os k\<close>
  is the answer of the \<open>k\<close>-th \<^verbatim>\<open>sendmsg\<close> call from now on.
\<close>

partial_function (option) drain_queue ::
  "addr \<Rightarrow> (nat \<Rightarrow> int \<times> errno_t) \<Rightarrow> nat \<Rightarrow> endpoint \<Rightarrow> endpoint option" where
  "drain_queue connection os k s =
     (case send_message connection None (os k) None False s of
        None \<Rightarrow> None
      | Some (ret, s') \<Rightarrow> if ret = 0 then drain_queue connection os (Suc k) s' else Some s')"


section \<open>endpoint.c: the list of workers\<close>

definition init_server_links :: "endpoint \<Rightarrow> endpoint" where
  "init_server_links s = s\<lparr>first_conn_srv_next := None, first_conn_srv_prev := None\<rparr>"

definition init_all_connections :: "endpoint \<Rightarrow> endpoint" where
  "init_all_connections s = init_server_links (init_connections s)"

definition srv_update :: "addr \<Rightarrow> (tServerStc \<Rightarrow> tServerStc) \<Rightarrow> endpoint \<Rightarrow> endpoint option" where
  "srv_update a f s =
     (case srv_heap s a of
        None \<Rightarrow> None
      | Some c \<Rightarrow> Some (s\<lparr>srv_heap := (srv_heap s)(a \<mapsto> f c)\<rparr>))"

definition add_server_link :: "int \<Rightarrow> int \<Rightarrow> (addr \<times> tServerStc) option \<Rightarrow> endpoint \<Rightarrow> endpoint option" where
  "add_server_link pid port m s =
     (let lastc = first_conn_srv_prev s in
      case m of
        Some (connection, junk) \<Rightarrow>
          (let s1 = s\<lparr>srv_heap := (srv_heap s)(connection \<mapsto>
                        junk\<lparr>s_port := port, s_pid := pid, s_valid := True, s_next := None\<rparr>),
                      first_conn_srv_prev := Some connection\<rparr>
           in case lastc of
                Some l \<Rightarrow>
                  do {
                    s2 \<leftarrow> srv_update l (\<lambda>x. x\<lparr>s_next := Some connection\<rparr>) s1;
                    srv_update connection (\<lambda>x. x\<lparr>s_prev := Some l\<rparr>) s2
                  }
              | None \<Rightarrow>
                  srv_update connection (\<lambda>x. x\<lparr>s_prev := None\<rparr>)
                    (s1\<lparr>first_conn_srv_next := Some connection\<rparr>))
      | None \<Rightarrow> Some (logmsg PRINT_ERROR ''allocating server connection list'' [] s))"

section \<open>endpoint.c: the sections of main\<close>

text \<open>
  \<^verbatim>\<open>exit (code)\<close> ends the process: \<open>Exit code s\<close>, with the state it ends in. A
  section that returns to the loop gives \<open>Go\<close>.
\<close>

datatype 'a flow = Exit int endpoint | Go 'a

text \<open>
  Startup, up to the first \<^verbatim>\<open>select\<close>: \<open>argc\<close>, the port \<^verbatim>\<open>atoi(argv[1])\<close>,
  whether \<^verbatim>\<open>gethostbyname\<close> finds the host, and the OS answers for the listening
  socket. The result is \<^verbatim>\<open>serversock\<close>.
\<close>

definition main_startup :: "int \<Rightarrow> int \<Rightarrow> bool \<Rightarrow> create_os \<Rightarrow> endpoint \<Rightarrow> (int \<times> endpoint) flow" where
  "main_startup argc portno host cs s =
     (if argc < 2 then Exit 1 s
      else
        (let s1 = init_all_connections s in
         if \<not> host then Exit 1 s1
         else
           (let (serversock, s2) = tcp_create_socket portno cs s1
            in if serversock < 0 then Exit 1 s2 else Go (serversock, s2))))"

text \<open>
  After \<^verbatim>\<open>select\<close>, with its return value and \<^verbatim>\<open>errno\<close>: \<open>Go True\<close> when the
  events are to be processed, \<open>Go False\<close> when the loop starts over.
\<close>

definition main_select :: "int \<Rightarrow> errno_t \<Rightarrow> endpoint \<Rightarrow> (bool \<times> endpoint) flow" where
  "main_select retcode e s =
     (if retcode < 0 then
        (if e = EINTR
         then Go (False, logmsg PRINT_OTHER ''select [main] interrupted, restarting'' [] s)
         else Exit 1 (logmsg PRINT_ERROR ''select [main]: %s'' [] s))
      else if retcode = 0 then Go (False, s)
      else Go (True, s))"

text \<open>
  The section for the listening socket. \<open>acc\<close> is the OS answer to \<^verbatim>\<open>accept\<close>,
  \<open>process_id\<close> the return value of \<^verbatim>\<open>fork\<close>, \<open>m\<close> the answer of \<^verbatim>\<open>malloc\<close> in
  \<^verbatim>\<open>add_server_link\<close>. In the child process (\<open>process_id = 0\<close>) the section goes on
  as the worker for the accepted descriptor and the client's port, and never returns to
  the loop.
\<close>

datatype forked = Parent endpoint | Child int int endpoint

definition main_accept ::
  "int \<Rightarrow> int \<times> int \<Rightarrow> int \<Rightarrow> (addr \<times> tServerStc) option \<Rightarrow> int \<Rightarrow> int \<Rightarrow> endpoint \<Rightarrow> forked flow option" where
  "main_accept serversock acc process_id m recv_delay client_port0 s =
     (let (clientsock, port, s1) = tcp_accept_connection acc s;
          client_port = (case port of None \<Rightarrow> client_port0 | Some p \<Rightarrow> p)
      in if clientsock < 0 then Some (Exit 1 s1)
         else if process_id < 0 then Some (Exit 1 (logmsg PRINT_ERROR ''fork: %s'' [] s1))
         else if process_id = 0 then Some (Go (Child clientsock client_port (close_fd serversock s1)))
         else
           do {
             s2 \<leftarrow> add_server_link process_id client_port m
                    (logmsg PRINT_OTHER
                       ''spawned child process pid: %d to handle port %u (recv delay = %d)''
                       [process_id, client_port, recv_delay] s1);
             Some (Go (Parent (close_fd clientsock s2)))
           })"

text \<open>
  The write section for one connection of the list. \<open>gso\<close> is the OS answer to
  \<^verbatim>\<open>getsockopt (SO_ERROR)\<close>: its return value and the pending error; \<open>port\<close> is
  the local port \<^verbatim>\<open>getsockname\<close> reports; \<open>os\<close> are the answers to the
  \<^verbatim>\<open>sendmsg\<close> calls. The result tells whether the section left the loop body with
  \<^verbatim>\<open>continue\<close>.
\<close>

definition endpoint_write_event ::
  "addr \<Rightarrow> int \<times> int \<Rightarrow> int \<Rightarrow> (nat \<Rightarrow> int \<times> errno_t) \<Rightarrow> endpoint \<Rightarrow> (bool \<times> endpoint) option" where
  "endpoint_write_event connection gso port os s =
     (case conn_heap s connection of
        None \<Rightarrow> None
      | Some c \<Rightarrow>
          if c_state c = STATE_PENDING then
            (if fst gso < 0 then
               map_option (Pair True)
                 (rem_connection (c_destport c)
                    (logmsg PRINT_SOCKET ''socket getsockopt failed (port %u): %s'' [c_destport c] s))
             else if snd gso \<noteq> 0 then
               map_option (Pair True)
                 (rem_connection (c_destport c)
                    (logmsg PRINT_SOCKET ''socket getsockopt connect failure (port %u): %s''
                       [c_destport c] s))
             else
               do {
                 s1 \<leftarrow> conn_update connection (\<lambda>x. x\<lparr>c_sendport := port, c_state := STATE_READY\<rparr>) s;
                 s2 \<leftarrow> drain_queue connection os 0
                        (logmsg PRINT_SOCKET
                           ''socket getsockopt connect complete (port %u) - sending on port: %u''
                           [c_destport c, port] s1);
                 Some (False, s2)
               })
          else map_option (Pair False) (drain_queue connection os 0 s))"

text \<open>
  \<^verbatim>\<open>remove_term\<close> on an array of \<open>sz\<close> bytes; \<^verbatim>\<open>char\<close> is signed, so a byte
  from 128 on compares below the space character.
\<close>

definition remove_term :: "byte list \<Rightarrow> nat \<Rightarrow> byte list" where
  "remove_term buffer sz =
     (if sz < 2 then buffer
      else buffer[length (takeWhile (\<lambda>b. 32 \<le> sint b) (take (sz - 1) buffer)) := 0])"

text \<open>The string in an array: the bytes before the first NUL.\<close>

definition c_string :: "byte list \<Rightarrow> byte list" where
  "c_string buffer = takeWhile (\<lambda>b. b \<noteq> 0) buffer"

definition PRINT_SENT :: int where "PRINT_SENT = 16"
definition PRINT_RCVD :: int where "PRINT_RCVD = 32"
definition MAX_MESSAGE_LEN :: nat where "MAX_MESSAGE_LEN = 255"

text \<open>
  The read section for one connection. \<open>rx\<close> is the receiving side of the
  connection's socket; the rest of it is returned.
\<close>

partial_function (option) recv_responses ::
  "addr \<Rightarrow> rx_socket \<Rightarrow> byte list \<Rightarrow> endpoint \<Rightarrow> (rx_socket \<times> endpoint) option" where
  "recv_responses connection rx response s =
     (case tcp_recv_message rx response (int (MAX_MESSAGE_LEN + 1)) of
        None \<Rightarrow> None
      | Some (recv_error, response1, rx', lg) \<Rightarrow>
          (case recv_error of
             RECV_COMPLETE \<Rightarrow>
               (case conn_update connection (\<lambda>x. x\<lparr>c_rspix := c_rspix x + 1\<rparr>)
                       (logmsg PRINT_RCVD ''%.30s'' [] (s\<lparr>log := log s @ lg\<rparr>)) of
                  None \<Rightarrow> None
                | Some s1 \<Rightarrow>
                    recv_responses connection rx'
                      (remove_term response1 (MAX_MESSAGE_LEN + 1)) s1)
           | RECV_BLOCKED \<Rightarrow> Some (rx', s\<lparr>log := log s @ lg\<rparr>)
           | RECV_TERMINATED \<Rightarrow>
               (case conn_heap s connection of
                  None \<Rightarrow> None
                | Some c \<Rightarrow>
                    map_option (Pair rx')
                      (rem_connection (c_destport c)
                         (logmsg PRINT_SOCKET ''socket recvmsg (port %u) terminated connection''
                            [c_destport c] (s\<lparr>log := log s @ lg\<rparr>))))
           | RECV_FAILURE \<Rightarrow>
               (case conn_heap s connection of
                  None \<Rightarrow> None
                | Some c \<Rightarrow>
                    map_option (Pair rx')
                      (rem_connection (c_destport c)
                         (logmsg PRINT_ERROR ''socket recvmsg (port %u): %s''
                            [c_destport c] (s\<lparr>log := log s @ lg\<rparr>))))))"

definition endpoint_read_event :: "addr \<Rightarrow> rx_socket \<Rightarrow> endpoint \<Rightarrow> (rx_socket \<times> endpoint) option" where
  "endpoint_read_event connection rx s =
     (case conn_heap s connection of
        None \<Rightarrow> None
      | Some c \<Rightarrow>
          if c_state c = STATE_READY
          then recv_responses connection rx (replicate (MAX_MESSAGE_LEN + 1) 0) s
          else Some (rx, s))"


section \<open>endpoint.c: child\_handle\_client\<close>

text \<open>
  The locals of \<^verbatim>\<open>child_handle_client\<close>; \<open>ch_firstmsg\<close> and \<open>ch_lastmsg\<close> are
  the \<^verbatim>\<open>next\<close> fields of its two list heads. The worker is a process of its own:
  its heap and its effects are an \<open>endpoint\<close> state of its own.
\<close>

record child_locals =
  ch_firstmsg :: anchor
  ch_lastmsg :: anchor
  ch_send_count :: int
  ch_recv_count :: int
  ch_running :: bool
  ch_buffer :: "byte list"

definition child_init :: child_locals where
  "child_init = \<lparr>ch_firstmsg = None, ch_lastmsg = None, ch_send_count = 0, ch_recv_count = 0,
     ch_running = True, ch_buffer = replicate (MAX_MESSAGE_LEN + 1) 0\<rparr>"

text \<open>
  The read section of the worker's loop. \<open>m1\<close> tells whether \<^verbatim>\<open>malloc\<close> gives the
  block for the response, \<open>m2\<close> is its answer for the queue entry. The first
  component of the result tells whether the section left the loop with \<^verbatim>\<open>break\<close>.
\<close>

definition child_read_event ::
  "int \<Rightarrow> int \<Rightarrow> rx_socket \<Rightarrow> bool \<Rightarrow> (addr \<times> tBufferStc) option \<Rightarrow> child_locals \<Rightarrow> endpoint \<Rightarrow>
     (bool \<times> rx_socket \<times> child_locals \<times> endpoint) option" where
  "child_read_event client_port procid rx m1 m2 l s =
     (case tcp_recv_message rx (replicate (MAX_MESSAGE_LEN + 1) 0) (int (MAX_MESSAGE_LEN + 1)) of
        None \<Rightarrow> None
      | Some (recv_error, buffer1, rx', lg) \<Rightarrow>
          (let s1 = s\<lparr>log := log s @ lg\<rparr>
           in case recv_error of
                RECV_TERMINATED \<Rightarrow>
                  Some (True, rx', l\<lparr>ch_running := False, ch_buffer := buffer1\<rparr>,
                        logmsg PRINT_SOCKET ''socket recvmsg (port %u) pid %d terminated connection''
                          [client_port, procid] s1)
              | RECV_BLOCKED \<Rightarrow>
                  Some (False, rx', l\<lparr>ch_buffer := buffer1\<rparr>,
                        logmsg PRINT_ERROR ''socket recvmsg (port %u): blocked'' [client_port] s1)
              | RECV_FAILURE \<Rightarrow>
                  Some (True, rx', l\<lparr>ch_running := False, ch_buffer := buffer1\<rparr>,
                        logmsg PRINT_ERROR ''socket recvmsg (port %u): %s'' [client_port] s1)
              | RECV_COMPLETE \<Rightarrow>
                  (let rc = ch_recv_count l + 1;
                       buffer2 = remove_term buffer1 (MAX_MESSAGE_LEN + 1);
                       s2 = logmsg PRINT_SENT ''pid %d [port %u msg %u] : %.30s''
                              [procid, client_port, rc] s1;
                       response = c_string buffer2
                   in if \<not> m1
                      then Some (True, rx', l\<lparr>ch_recv_count := rc, ch_running := False, ch_buffer := buffer2\<rparr>,
                                 logmsg PRINT_ERROR ''memory allocation for message'' [] s2)
                      else
                        (case m2 of
                           None \<Rightarrow>
                             Some (True, rx',
                                   l\<lparr>ch_recv_count := rc, ch_running := False, ch_buffer := buffer2\<rparr>,
                                   logmsg PRINT_ERROR ''memory allocation for send queue'' [] s2)
                         | Some (qentry, junk) \<Rightarrow>
                             (let s3 = s2\<lparr>buf_heap := (buf_heap s2)(qentry \<mapsto>
                                           junk\<lparr>b_buffer := Some response,
                                                b_msglen := int (length response),
                                                b_msgix := rc, b_next := None\<rparr>)\<rparr>;
                                  l1 = l\<lparr>ch_recv_count := rc,
                                         ch_buffer := replicate (MAX_MESSAGE_LEN + 1) 0\<rparr>
                              in case ch_lastmsg l of
                                   Some lp \<Rightarrow>
                                     (case buf_heap s3 lp of
                                        None \<Rightarrow> None
                                      | Some e \<Rightarrow>
                                          Some (False, rx', l1\<lparr>ch_lastmsg := Some qentry\<rparr>,
                                                s3\<lparr>buf_heap := (buf_heap s3)(lp \<mapsto> e\<lparr>b_next := Some qentry\<rparr>)\<rparr>))
                                 | None \<Rightarrow>
                                     Some (False, rx',
                                           l1\<lparr>ch_firstmsg := Some qentry, ch_lastmsg := Some qentry\<rparr>, s3))))))"

text \<open>
  The send section of the worker's loop: \<^verbatim>\<open>while (pending)\<close>, entered with
  \<^verbatim>\<open>pending = firstmsg.next\<close>. \<open>os k\<close> is the answer of the \<open>k\<close>-th \<^verbatim>\<open>sendmsg\<close>
  call from now on.
\<close>

partial_function (option) child_send_loop ::
  "int \<Rightarrow> int \<Rightarrow> addr option \<Rightarrow> (nat \<Rightarrow> int \<times> errno_t) \<Rightarrow> nat \<Rightarrow> child_locals \<Rightarrow> endpoint \<Rightarrow>
     (child_locals \<times> endpoint) option" where
  "child_send_loop clientsock client_port pending os k l s =
     (case pending of
        None \<Rightarrow> Some (l, s)
      | Some p \<Rightarrow>
          (case buf_heap s p of
             None \<Rightarrow> None
           | Some e \<Rightarrow>
               (case b_buffer e of
                  None \<Rightarrow>
                    child_send_loop clientsock client_port (b_next e) os k
                      (l\<lparr>ch_firstmsg := b_next e,
                         ch_lastmsg := (if b_next e = None then None else ch_lastmsg l)\<rparr>)
                      (s\<lparr>buf_heap := (buf_heap s)(p := None)\<rparr>)
                | Some buf \<Rightarrow>
                    (case tcp_send_message buf (int (length buf)) (ch_send_count l + 1) (os k) of
                       (SEND_BLOCKED, bytes) \<Rightarrow>
                         child_send_loop clientsock client_port (b_next e) os (Suc k) l
                           (logmsg PRINT_ERROR ''socket sendmsg (port %u): blocked'' [client_port] s)
                     | (SEND_FAILURE, bytes) \<Rightarrow>
                         Some (l\<lparr>ch_running := False\<rparr>,
                               logmsg PRINT_ERROR ''socket sendmsg (port %u): %s'' [client_port] s)
                     | (SEND_COMPLETE, bytes) \<Rightarrow>
                         child_send_loop clientsock client_port (b_next e) os (Suc k)
                           (l\<lparr>ch_firstmsg := b_next e,
                              ch_lastmsg := (if b_next e = None then None else ch_lastmsg l),
                              ch_send_count := ch_send_count l + 1\<rparr>)
                           (s\<lparr>wire := wire s @ [(clientsock, bytes)],
                              buf_heap := (buf_heap s)(p := None)\<rparr>)))))"

definition child_send_pending ::
  "int \<Rightarrow> int \<Rightarrow> (nat \<Rightarrow> int \<times> errno_t) \<Rightarrow> child_locals \<Rightarrow> endpoint \<Rightarrow> (child_locals \<times> endpoint) option" where
  "child_send_pending clientsock client_port os l s =
     child_send_loop clientsock client_port (ch_firstmsg l) os 0 l s"

text \<open>
  One turn of the worker's loop: \<open>sel\<close> is the return value of \<^verbatim>\<open>select\<close>,
  \<open>readable\<close> tells whether the client socket is in the read set.
\<close>

definition child_iteration ::
  "int \<Rightarrow> int \<Rightarrow> int \<Rightarrow> int \<Rightarrow> bool \<Rightarrow> rx_socket \<Rightarrow> bool \<Rightarrow> (addr \<times> tBufferStc) option \<Rightarrow>
     (nat \<Rightarrow> int \<times> errno_t) \<Rightarrow> child_locals \<Rightarrow> endpoint \<Rightarrow> (rx_socket \<times> child_locals \<times> endpoint) option" where
  "child_iteration clientsock client_port procid sel readable rx m1 m2 os l s =
     (if sel < 0 then Some (rx, l\<lparr>ch_running := False\<rparr>, logmsg PRINT_ERROR ''select: %s'' [] s)
      else if sel = 0 then Some (rx, l, s)
      else
        do {
          (brk, rx1, l1, s1) \<leftarrow>
            (if readable then child_read_event client_port procid rx m1 m2 l s
             else Some (False, rx, l, s));
          if brk then Some (rx1, l1, s1)
          else
            do {
              (l2, s2) \<leftarrow> child_send_pending clientsock client_port os l1 s1;
              Some (rx1, l2, s2)
            }
        })"

section \<open>Vocabulary for the results\<close>

subsection \<open>tcp\_recv\_message\<close>



text \<open>The header after the check of \<^verbatim>\<open>header.msglen\<close>, and the line the check logs.\<close>

definition clamped :: "int \<Rightarrow> byte list \<Rightarrow> byte list" where
  "clamped msglen hdr = (if msglen < header_msglen hdr then set_header_msglen hdr msglen else hdr)"

definition clamp_log :: "int \<Rightarrow> byte list \<Rightarrow> log_entry list" where
  "clamp_log msglen hdr =
     (if msglen < header_msglen hdr
      then [(PRINT_ERROR, ''invalid message header: len = %d, ix = %d'',
             [header_msglen hdr, header_msgix hdr])]
      else [])"

subsection \<open>The connection list as a list of addresses\<close>

text \<open>
  \<open>dll h p q xs r\<close>: in the heap \<open>h\<close>, following \<^verbatim>\<open>next\<close> from the pointer
  \<open>p\<close> visits exactly the live entries \<open>xs\<close> and ends at \<open>r\<close>, and \<^verbatim>\<open>prev\<close>
  of each entry is the entry before it (\<open>q\<close> for the first). \<open>registry s xs\<close>: the
  global list of connections of the state \<open>s\<close> is \<open>xs\<close>, in this order, well linked
  in both directions. \<open>conn_port\<close> is the destination port of the entry at an
  address, \<open>conn_data\<close> an entry without its two link fields.

  \<open>removed a c s s'\<close>: from \<open>s\<close> to \<open>s'\<close> the entry at \<open>a\<close> (contents \<open>c\<close>) has
  been freed and its descriptor closed; no other entry has changed but in its link
  fields, and nothing else has changed but the one log line. \<open>created d a s s'\<close>: the
  entry at \<open>a\<close> is new, for port \<open>d\<close>, with an empty queue and zero counters.
  \<open>same_memory s s'\<close>: the heaps and the list heads are the same.
\<close>

primrec dll :: "(addr \<rightharpoonup> tConnectStc) \<Rightarrow> addr option \<Rightarrow> addr option \<Rightarrow> addr list \<Rightarrow> addr option \<Rightarrow> bool" where
  "dll h p q [] r = (p = r)"
| "dll h p q (a # as) r =
     (p = Some a \<and> (case h a of None \<Rightarrow> False | Some c \<Rightarrow> c_prev c = q \<and> dll h (c_next c) (Some a) as r))"


definition lastp :: "addr option \<Rightarrow> addr list \<Rightarrow> addr option" where
  "lastp q xs = (if xs = [] then q else Some (last xs))"


definition registry :: "endpoint \<Rightarrow> addr list \<Rightarrow> bool" where
  "registry s xs =
     (dll (conn_heap s) (first_conn_req_next s) None xs None \<and>
      first_conn_req_prev s = lastp None xs \<and> distinct xs)"


definition conn_port :: "endpoint \<Rightarrow> addr \<Rightarrow> int option" where
  "conn_port s a = map_option c_destport (conn_heap s a)"


definition conn_data :: "tConnectStc \<Rightarrow> tConnectStc" where
  "conn_data c = c\<lparr>c_next := None, c_prev := None\<rparr>"


definition removed :: "addr \<Rightarrow> tConnectStc \<Rightarrow> endpoint \<Rightarrow> endpoint \<Rightarrow> bool" where
  "removed a c s s' =
     (conn_heap s' a = None \<and>
      (\<forall>b. b \<noteq> a \<longrightarrow> map_option conn_data (conn_heap s' b) = map_option conn_data (conn_heap s b)) \<and>
      buf_heap s' = buf_heap s \<and> srv_heap s' = srv_heap s \<and>
      first_conn_srv_next s' = first_conn_srv_next s \<and> first_conn_srv_prev s' = first_conn_srv_prev s \<and>
      wire s' = wire s \<and>
      log s' = log s @ [(PRINT_OTHER, ''closing and removing connection to port %u'', [c_destport c])] \<and>
      closed s' = closed s @ (if 0 \<le> c_sockfd c then [c_sockfd c] else []))"


definition same_memory :: "endpoint \<Rightarrow> endpoint \<Rightarrow> bool" where
  "same_memory s s' =
     (conn_heap s' = conn_heap s \<and> buf_heap s' = buf_heap s \<and> srv_heap s' = srv_heap s \<and>
      first_conn_req_next s' = first_conn_req_next s \<and> first_conn_req_prev s' = first_conn_req_prev s \<and>
      first_conn_srv_next s' = first_conn_srv_next s \<and> first_conn_srv_prev s' = first_conn_srv_prev s)"


definition created :: "int \<Rightarrow> addr \<Rightarrow> endpoint \<Rightarrow> endpoint \<Rightarrow> bool" where
  "created d a s s' =
     ((\<exists>c. conn_heap s' a = Some c \<and> c_destport c = d \<and>
           (c_state c = STATE_PENDING \<or> c_state c = STATE_READY) \<and>
           c_msgfirst c = None \<and> c_msglast c = None \<and>
           c_msgix c = 0 \<and> c_sntix c = 0 \<and> c_rspix c = 0 \<and> c_pndix c = 0) \<and>
      (\<forall>b. b \<noteq> a \<longrightarrow> map_option conn_data (conn_heap s' b) = map_option conn_data (conn_heap s b)) \<and>
      buf_heap s' = buf_heap s \<and> srv_heap s' = srv_heap s \<and>
      first_conn_srv_next s' = first_conn_srv_next s \<and> first_conn_srv_prev s' = first_conn_srv_prev s)"


subsection \<open>Port uniqueness, and states for the examples\<close>

definition empty_endpoint :: endpoint where
  "empty_endpoint = \<lparr>conn_heap = Map.empty, buf_heap = Map.empty, srv_heap = Map.empty,
     first_conn_req_next = None, first_conn_req_prev = None,
     first_conn_srv_next = None, first_conn_srv_prev = None,
     log = [], closed = [], wire = []\<rparr>"

definition conn_example :: "int \<Rightarrow> int \<Rightarrow> addr option \<Rightarrow> addr option \<Rightarrow> tConnectStc" where
  "conn_example fd port n p = \<lparr>c_next = n, c_prev = p, c_sockfd = fd, c_destport = port,
     c_sendport = 0, c_state = STATE_READY, c_msgix = 0, c_sntix = 0, c_rspix = 0, c_pndix = 0,
     c_msglast = None, c_msgfirst = None\<rparr>"

definition three_connections :: endpoint where
  "three_connections = empty_endpoint
     \<lparr>conn_heap := [1 \<mapsto> conn_example 4 9001 (Some 2) None,
                     2 \<mapsto> conn_example 5 9002 (Some 3) (Some 1),
                     3 \<mapsto> conn_example 6 9003 None (Some 2)],
      first_conn_req_next := Some 1, first_conn_req_prev := Some 3\<rparr>"

definition create_ok :: "int \<Rightarrow> create_os" where
  "create_ok fd = \<lparr>os_socket = fd, os_bind = 0, os_fcntl = 0, os_rcvbuf = (0, 87380),
     os_sndbuf = (0, 16384), os_listen = 0\<rparr>"

definition unique_ports :: "endpoint \<Rightarrow> addr list \<Rightarrow> bool" where
  "unique_ports s xs = (registry s xs \<and> distinct (map (conn_port s) xs))"

subsection \<open>A send queue as a list of addresses\<close>

text \<open>
  \<open>qseg h p xs r\<close>: following \<^verbatim>\<open>next\<close> from \<open>p\<close> visits exactly the live queue
  entries \<open>xs\<close> and ends at \<open>r\<close>. \<open>queue s qfirst qlast xs\<close>: the queue behind the
  two list heads is \<open>xs\<close>, oldest entry first. \<open>buf_valid\<close>: the entry is live and
  its buffer pointer is not \<^verbatim>\<open>NULL\<close>. \<open>purged s xs\<close>: the state after the invalid
  entries at the front of \<open>xs\<close> have been freed, with a log line for each.
\<close>

primrec qseg :: "(addr \<rightharpoonup> tBufferStc) \<Rightarrow> addr option \<Rightarrow> addr list \<Rightarrow> addr option \<Rightarrow> bool" where
  "qseg h p [] r = (p = r)"
| "qseg h p (a # as) r =
     (p = Some a \<and> (case h a of None \<Rightarrow> False | Some e \<Rightarrow> qseg h (b_next e) as r))"

definition queue :: "endpoint \<Rightarrow> anchor \<Rightarrow> anchor \<Rightarrow> addr list \<Rightarrow> bool" where
  "queue s qfirst qlast xs =
     (qseg (buf_heap s) qfirst xs None \<and> qlast = lastp None xs \<and> distinct xs)"

definition buf_valid :: "endpoint \<Rightarrow> addr \<Rightarrow> bool" where
  "buf_valid s a = (case buf_heap s a of None \<Rightarrow> False | Some e \<Rightarrow> b_buffer e \<noteq> None)"

definition null_log :: "endpoint \<Rightarrow> addr \<Rightarrow> log_entry" where
  "null_log s a =
     (PRINT_ERROR, ''NULL buffer in sending queue list (msgix %d)'',
      [case buf_heap s a of None \<Rightarrow> 0 | Some e \<Rightarrow> b_msgix e])"

definition purged :: "endpoint \<Rightarrow> addr list \<Rightarrow> endpoint" where
  "purged s xs =
     s\<lparr>log := log s @ map (null_log s) (takeWhile (\<lambda>a. \<not> buf_valid s a) xs),
       buf_heap := buf_heap s |` (- set (takeWhile (\<lambda>a. \<not> buf_valid s a) xs))\<rparr>"

definition headp :: "addr list \<Rightarrow> addr option" where
  "headp xs = (case xs of [] \<Rightarrow> None | a # as \<Rightarrow> Some a)"

definition buf_example :: "addr option \<Rightarrow> int \<Rightarrow> byte list option \<Rightarrow> tBufferStc" where
  "buf_example n ix b = \<lparr>b_next = n, b_msgix = ix, b_msglen = 0, b_buffer = b\<rparr>"

definition queue_example :: endpoint where
  "queue_example = empty_endpoint
     \<lparr>buf_heap := [11 \<mapsto> buf_example (Some 12) 1 None,
                    12 \<mapsto> buf_example (Some 13) 2 None,
                    13 \<mapsto> buf_example (Some 14) 3 (Some [104, 105]),
                    14 \<mapsto> buf_example None 4 (Some [121, 111])]\<rparr>"

subsection \<open>Inputs for the worker\<close>

definition two_frames :: rx_socket where
  "two_frames = [RxData (frame_bytes [104, 105] 2 1), RxData (frame_bytes [121, 111] 2 2)]"

definition blocked_then_sent :: "nat \<Rightarrow> int \<times> errno_t" where
  "blocked_then_sent k = (if k = 0 then (- 1, EWOULDBLOCK) else (10, EOTHER))"

subsection \<open>The send queue of a connection\<close>

text \<open>
  \<open>buf_text s a\<close> is the message of the queue entry at \<open>a\<close>. \<open>sendq s cs p c xs\<close>:
  the connection list is \<open>cs\<close>, with no port twice, \<open>p\<close> is one of its entries, with
  contents \<open>c\<close>, and the send queue behind the two list heads of \<open>c\<close> is \<open>xs\<close>,
  every entry with a message. \<open>submitted buffer\<close> is the new message of a call, if
  any, as a list. \<open>requeued c ys\<close> is the entry \<open>c\<close> with its list heads set to the
  first and the last of \<open>ys\<close>.

  \<open>drain_spec\<close> follows the words of the specification for draining, not the code:
  while the queue is not empty the head is sent; a completed send pops it and goes on,
  a blocked one or a failed one stops. It returns what the completed sends have put on
  the wire, in order, and the status that stopped the loop (\<open>None\<close> when the queue ran
  empty). The argument \<open>os k\<close> is the answer of the \<open>k\<close>-th \<^verbatim>\<open>sendmsg\<close> call.
\<close>

definition buf_text :: "endpoint \<Rightarrow> addr \<Rightarrow> byte list" where
  "buf_text s a = (case buf_heap s a of None \<Rightarrow> [] | Some e \<Rightarrow> (case b_buffer e of None \<Rightarrow> [] | Some b \<Rightarrow> b))"

definition sendq :: "endpoint \<Rightarrow> addr list \<Rightarrow> addr \<Rightarrow> tConnectStc \<Rightarrow> addr list \<Rightarrow> bool" where
  "sendq s cs p c xs =
     (unique_ports s cs \<and> p \<in> set cs \<and> conn_heap s p = Some c \<and>
      queue s (c_msgfirst c) (c_msglast c) xs \<and> list_all (buf_valid s) xs)"

definition submitted :: "byte list option \<Rightarrow> byte list list" where
  "submitted buffer = (case buffer of None \<Rightarrow> [] | Some b \<Rightarrow> [b])"

definition requeued :: "tConnectStc \<Rightarrow> addr list \<Rightarrow> tConnectStc" where
  "requeued c ys = c\<lparr>c_msgfirst := headp ys, c_msglast := lastp None ys\<rparr>"

fun drain_spec :: "byte list list \<Rightarrow> int \<Rightarrow> (nat \<Rightarrow> int \<times> errno_t) \<Rightarrow> nat \<Rightarrow> byte list list \<times> tSendMsgTyp option" where
  "drain_spec [] ix os k = ([], None)"
| "drain_spec (m # q) ix os k =
     (case tcp_send_message m (int (length m)) ix (os k) of
        (SEND_COMPLETE, bytes) \<Rightarrow> (case drain_spec q ix os (Suc k) of (w, r) \<Rightarrow> (bytes # w, r))
      | (SEND_BLOCKED, bytes) \<Rightarrow> ([], Some SEND_BLOCKED)
      | (SEND_FAILURE, bytes) \<Rightarrow> ([], Some SEND_FAILURE))"

definition sending_example :: endpoint where
  "sending_example = three_connections
     \<lparr>conn_heap := (conn_heap three_connections)
        (2 \<mapsto> (conn_example 5 9002 (Some 3) (Some 1))
                 \<lparr>c_msgix := 7, c_msgfirst := Some 13, c_msglast := Some 14\<rparr>),
      buf_heap := [13 \<mapsto> buf_example (Some 14) 7 (Some [104, 105]),
                   14 \<mapsto> buf_example None 7 (Some [121, 111])]\<rparr>"

definition sent_then_blocked :: "nat \<Rightarrow> int \<times> errno_t" where
  "sent_then_blocked k = (if k = 0 then (10, EOTHER) else (- 1, EWOULDBLOCK))"

subsection \<open>The queue of a worker\<close>







section \<open>Results about netio.c\<close>

declare recv_loop.simps [simp del]
















lemma recv_loop_zero:
  "recvmsg sock len = (RecvZero, sock') \<Longrightarrow>
   recv_loop sock msglen header buffer base len cnt lg = Some (RECV_TERMINATED, buffer, sock', lg)"
  by (subst recv_loop.simps) simp

lemma recv_loop_err:
  "recvmsg sock len = (RecvErr e, sock') \<Longrightarrow>
   recv_loop sock msglen header buffer base len cnt lg =
     Some (if e = EWOULDBLOCK then RECV_BLOCKED else RECV_FAILURE, buffer, sock', lg)"
  by (subst recv_loop.simps) simp

lemma recv_loop_bytes:
  "recvmsg sock len = (RecvBytes bs, sock') \<Longrightarrow>
   iov_write base bs header buffer = Some (header1, buffer1) \<Longrightarrow>
   recv_loop sock msglen header buffer base len cnt lg =
     (if 8 \<le> cnt + length bs then
        if (8 + size_t (header_msglen (clamped msglen header1))) mod 2 ^ 64 \<le> cnt + length bs
        then Some (RECV_COMPLETE, buffer1, sock', lg @ clamp_log msglen header1)
        else if cnt + length bs = 8
        then recv_loop sock' msglen (clamped msglen header1) buffer1 (IovBuffer 0)
               (size_t (header_msglen (clamped msglen header1))) (cnt + length bs)
               (lg @ clamp_log msglen header1)
        else recv_loop sock' msglen (clamped msglen header1) buffer1
               (IovBuffer (cnt + length bs - 8)) (len - length bs) (cnt + length bs)
               (lg @ clamp_log msglen header1)
      else recv_loop sock' msglen header1 buffer1 (IovHeader (cnt + length bs))
             (8 - (cnt + length bs)) (cnt + length bs) lg)"
  by (subst recv_loop.simps) (simp add: Let_def clamped_def clamp_log_def)












lemmas netio_eval = tcp_recv_message_def recv_loop_bytes recv_loop_zero recv_loop_err recvmsg_def
  SSIZE_MAX_def put_bytes_def clamped_def clamp_log_def header_msglen_def header_msgix_def
  set_header_msglen_def dec32_def enc32_def size_t_def frame_bytes_def header_bytes_def
  tcp_send_message_def PRINT_ERROR_def

text \<open>
  C1 fails on the code: the header, the cursor and \<^verbatim>\<open>recv_count\<close> are locals of
  \<^verbatim>\<open>tcp_recv_message\<close>, so a call that returns \<^verbatim>\<open>RECV_BLOCKED\<close> in the middle
  of a frame forgets the bytes it has consumed, and the next call starts a new header
  at the byte where the stream stands. The sender puts the frames of \<open>hi\<close> (index 1)
  and \<open>yo\<close> (index 2) on the wire; the first four bytes arrive, then nothing is
  ready, then the rest arrives. The first call returns \<^verbatim>\<open>RECV_BLOCKED\<close> with four
  bytes of the header consumed. The second call reads the eight bytes that follow as a
  header (length 1) and completes with the payload byte 0: \<open>hi\<close> is never delivered.
\<close>

theorem tcp_recv_message_blocked_midframe:
  "snd (tcp_send_message [104, 105] 2 1 (10, EOTHER)) @ snd (tcp_send_message [121, 111] 2 2 (10, EOTHER)) =
     [2, 0, 0, 0] @ [1, 0, 0, 0, 104, 105, 2, 0, 0, 0, 2, 0, 0, 0, 121, 111] \<and>
   tcp_recv_message
      [RxData [2, 0, 0, 0], RxErr EWOULDBLOCK, RxData [1, 0, 0, 0, 104, 105, 2, 0, 0, 0, 2, 0, 0, 0, 121, 111]]
      [0, 0, 0, 0] 4 =
     Some (RECV_BLOCKED, [0, 0, 0, 0],
           [RxData [1, 0, 0, 0, 104, 105, 2, 0, 0, 0, 2, 0, 0, 0, 121, 111]], []) \<and>
   tcp_recv_message [RxData [1, 0, 0, 0, 104, 105, 2, 0, 0, 0, 2, 0, 0, 0, 121, 111]] [0, 0, 0, 0] 4 =
     Some (RECV_COMPLETE, [0, 0, 0, 0], [RxData [0, 2, 0, 0, 0, 121, 111]], [])"
  by (simp add: netio_eval)




text \<open>
  C2. For every send call and every answer of the OS, \<^verbatim>\<open>tcp_send_message\<close>
  returns \<^verbatim>\<open>SEND_COMPLETE\<close> exactly when \<^verbatim>\<open>sendmsg\<close> reports a positive byte
  count, and then exactly that many bytes of the frame have reached the socket, also
  when they are fewer than the frame (one \<^verbatim>\<open>sendmsg\<close> call, no retry); it returns
  \<^verbatim>\<open>SEND_BLOCKED\<close> exactly when \<^verbatim>\<open>sendmsg\<close> fails with \<^verbatim>\<open>EWOULDBLOCK\<close>,
  with nothing written; in every other case it returns \<^verbatim>\<open>SEND_FAILURE\<close>.
\<close>

theorem tcp_send_message_status:
  "(fst (tcp_send_message buffer msglen msgix (n, e)) = SEND_COMPLETE) = (n > 0) \<and>
   (fst (tcp_send_message buffer msglen msgix (n, e)) = SEND_BLOCKED) = (n < 0 \<and> e = EWOULDBLOCK) \<and>
   (fst (tcp_send_message buffer msglen msgix (n, e)) = SEND_FAILURE) =
      (n = 0 \<or> (n < 0 \<and> e \<noteq> EWOULDBLOCK)) \<and>
   snd (tcp_send_message buffer msglen msgix (n, e)) =
      (if n > 0 then take (nat n) (frame_bytes buffer msglen msgix) else [])"
  by (auto simp add: tcp_send_message_def Let_def)

theorem tcp_send_message_status_witness:
  "fst (tcp_send_message [104, 105] 2 1 (3, EOTHER)) = SEND_COMPLETE \<and>
   snd (tcp_send_message [104, 105] 2 1 (3, EOTHER)) = [2, 0, 0] \<and>
   fst (tcp_send_message [104, 105] 2 1 (-1, EWOULDBLOCK)) = SEND_BLOCKED \<and>
   fst (tcp_send_message [104, 105] 2 1 (-1, EOTHER)) = SEND_FAILURE \<and>
   fst (tcp_send_message [104, 105] 2 1 (0, EOTHER)) = SEND_FAILURE"
  using tcp_send_message_status [of "[104, 105]" 2 1 3 EOTHER]
    tcp_send_message_status [of "[104, 105]" 2 1 "-1" EWOULDBLOCK]
    tcp_send_message_status [of "[104, 105]" 2 1 "-1" EOTHER]
    tcp_send_message_status [of "[104, 105]" 2 1 0 EOTHER]
  by (simp add: frame_bytes_def header_bytes_def enc32_def)

section \<open>Results about the connection list\<close>

lemma lastp_simps [simp]: "lastp q [] = q" "lastp q (xs @ [a]) = Some a" "lastp q (a # xs) = lastp (Some a) xs"
  by (simp_all add: lastp_def)


lemma lastp_append [simp]: "lastp q (xs @ ys) = lastp (lastp q xs) ys"
  by (simp add: lastp_def)


lemma dll_live: "dll h p q xs r \<Longrightarrow> a \<in> set xs \<Longrightarrow> \<exists>c. h a = Some c"
  by (induction xs arbitrary: p q) (auto split: option.splits)


lemma dll_append:
  "dll h p q (xs @ ys) r = (\<exists>m. dll h p q xs m \<and> dll h m (lastp q xs) ys r)"
  by (induction xs arbitrary: p q) (auto split: option.splits)


lemma dll_frame:
  "(\<And>a. a \<in> set xs \<Longrightarrow> map_option (\<lambda>c. (c_next c, c_prev c)) (h' a) = map_option (\<lambda>c. (c_next c, c_prev c)) (h a)) \<Longrightarrow>
   dll h' p q xs r = dll h p q xs r"
proof (induction xs arbitrary: p q)
  case Nil
  then show ?case by simp
next
  case (Cons a as)
  from Cons.prems [of a] have "map_option (\<lambda>c. (c_next c, c_prev c)) (h' a) = map_option (\<lambda>c. (c_next c, c_prev c)) (h a)"
    by simp
  moreover have "\<And>p q. dll h' p q as r = dll h p q as r"
    using Cons.IH Cons.prems by simp
  ultimately show ?case
    by (cases "h a"; cases "h' a") auto
qed


lemma dll_upd_notin [simp]: "a \<notin> set xs \<Longrightarrow> dll (h(a := v)) p q xs r = dll h p q xs r"
  by (rule dll_frame) auto


lemma dll_head: "dll h p q xs r \<Longrightarrow> p = (case xs of [] \<Rightarrow> r | a # as \<Rightarrow> Some a)"
  by (cases xs) auto


lemma find_from_dll:
  "dll h p q xs None \<Longrightarrow>
   find_from h p d = Some (List.find (\<lambda>a. map_option c_destport (h a) = Some d) xs)"
proof (induction xs arbitrary: p q)
  case Nil
  then show ?case by (simp add: find_from.simps)
next
  case (Cons a as)
  then obtain c where c: "p = Some a" "h a = Some c" "c_prev c = q" "dll h (c_next c) (Some a) as None"
    by (auto split: option.splits)
  from Cons.IH [OF c(4)] c(1,2) show ?case
    by (subst find_from.simps) simp
qed


lemma find_connection_registry:
  "registry s xs \<Longrightarrow> find_connection d s = Some (List.find (\<lambda>a. conn_port s a = Some d) xs)"
  unfolding registry_def find_connection_def conn_port_def by (auto dest: find_from_dll)



lemma rem_from_skip:
  "dll (conn_heap s) p q pre m \<Longrightarrow> \<forall>b\<in>set pre. conn_port s b \<noteq> Some d \<Longrightarrow>
   rem_from p d s = rem_from m d s"
proof (induction pre arbitrary: p q)
  case Nil
  then show ?case by simp
next
  case (Cons a as)
  then obtain c where c: "p = Some a" "conn_heap s a = Some c" "dll (conn_heap s) (c_next c) (Some a) as m"
    by (auto split: option.splits)
  from Cons.prems(2) c(2) have ne: "c_destport c \<noteq> d"
    by (simp add: conn_port_def)
  from Cons.prems(2) have "\<forall>b\<in>set as. conn_port s b \<noteq> Some d"
    by simp
  from Cons.IH [OF c(3) this] c(1,2) ne show ?case
    by (subst rem_from.simps) simp
qed


lemma rem_from_None: "rem_from None d s = Some (logmsg PRINT_ERROR ''Connection to %u not found'' [d] s)"
  by (subst rem_from.simps) simp


lemma rem_from_hit:
  "conn_heap s a = Some c \<Longrightarrow> c_destport c = d \<Longrightarrow> rem_from (Some a) d s = unlink_connection a c s"
  by (subst rem_from.simps) simp


lemma rem_connection_absent:
  assumes "registry s xs" "\<forall>b\<in>set xs. conn_port s b \<noteq> Some d"
  shows "rem_connection d s = Some (logmsg PRINT_ERROR ''Connection to %u not found'' [d] s)"
  using assms rem_from_skip [of s "first_conn_req_next s" None xs None d]
  by (simp add: rem_connection_def registry_def rem_from_None)


lemma unlink_registry:
  assumes reg: "registry s (pre @ a # post)" and live: "conn_heap s a = Some c"
  shows "\<exists>s'. unlink_connection a c s = Some s' \<and> registry s' (pre @ post) \<and> removed a c s s'"
proof -
  let ?h = "conn_heap s"
  from reg have d: "dll ?h (first_conn_req_next s) None (pre @ a # post) None"
    and l: "first_conn_req_prev s = lastp None (pre @ a # post)"
    and dist: "distinct (pre @ a # post)"
    by (simp_all add: registry_def)
  from dist have dp: "distinct (pre @ post)"
    by auto
  from d live have pre: "dll ?h (first_conn_req_next s) None pre (Some a)"
    and cp: "c_prev c = lastp None pre"
    and post: "dll ?h (c_next c) (Some a) post None"
    by (auto simp add: dll_append)
  show ?thesis
  proof (cases post)
    case Nil
    note post_nil = Nil
    with post have cn: "c_next c = None" by simp
    show ?thesis
    proof (cases pre rule: rev_cases)
      case Nil
      with cp have "c_prev c = None" by simp
      with cn Nil post_nil dp show ?thesis
        by (simp add: unlink_connection_def registry_def removed_def logmsg_def close_fd_def)
    next
      case (snoc pre' p)
      with cp have cpp: "c_prev c = Some p" by simp
      from pre snoc obtain e where e: "dll ?h (first_conn_req_next s) None pre' (Some p)"
        "?h p = Some e" "c_prev e = lastp None pre'" "c_next e = Some a"
        by (auto simp add: dll_append split: option.splits)
      from dist snoc have ne: "p \<noteq> a" "p \<notin> set pre'" "a \<notin> set pre'"
        by auto
      from cn cpp e ne snoc post_nil dp show ?thesis
        by (simp add: unlink_connection_def registry_def removed_def logmsg_def close_fd_def
            conn_update_def dll_append conn_data_def)
    qed
  next
    case (Cons n post')
    note post_cons = Cons
    with post obtain f where f: "c_next c = Some n" "?h n = Some f" "c_prev f = Some a"
      "dll ?h (c_next f) (Some n) post' None"
      by (auto split: option.splits)
    from dist Cons have nn: "n \<noteq> a" "n \<notin> set post'" "a \<notin> set post'" "n \<notin> set pre" "a \<notin> set pre"
      by auto
    from l Cons have l': "first_conn_req_prev s = lastp (Some n) post'"
      by (simp add: lastp_def)
    show ?thesis
    proof (cases pre rule: rev_cases)
      case Nil
      with cp have "c_prev c = None" by simp
      with f nn Nil post_cons l' dp show ?thesis
        by (simp add: unlink_connection_def registry_def removed_def logmsg_def close_fd_def
            conn_update_def conn_data_def)
    next
      case (snoc pre' p)
      with cp have cpp: "c_prev c = Some p" by simp
      from pre snoc obtain e where e: "dll ?h (first_conn_req_next s) None pre' (Some p)"
        "?h p = Some e" "c_prev e = lastp None pre'" "c_next e = Some a"
        by (auto simp add: dll_append split: option.splits)
      from dist snoc post_cons have ne: "p \<noteq> a" "p \<notin> set pre'" "a \<notin> set pre'" "n \<notin> set pre'"
        "p \<noteq> n" "p \<notin> set post'"
        by auto
      from f nn cpp e ne snoc post_cons l' dp show ?thesis
        by (simp add: unlink_connection_def registry_def removed_def logmsg_def close_fd_def
            conn_update_def dll_append conn_data_def)
    qed
  qed
qed


lemma rem_connection_present:
  assumes reg: "registry s (pre @ a # post)" and live: "conn_heap s a = Some c"
    and port: "c_destport c = d" and first: "\<forall>b\<in>set pre. conn_port s b \<noteq> Some d"
  shows "\<exists>s'. rem_connection d s = Some s' \<and> registry s' (pre @ post) \<and> removed a c s s'"
proof -
  from reg have "dll (conn_heap s) (first_conn_req_next s) None pre (Some a)"
    using live by (auto simp add: registry_def dll_append)
  from rem_from_skip [OF this first] have "rem_connection d s = unlink_connection a c s"
    using live port by (simp add: rem_connection_def rem_from_hit)
  with unlink_registry [OF reg live] show ?thesis
    by simp
qed



lemma same_memory_refl [simp]: "same_memory s s"
  by (simp add: same_memory_def)


lemma same_memory_logmsg [simp]: "same_memory s (logmsg c f a s') = same_memory s s'"
  by (simp add: same_memory_def logmsg_def)


lemma same_memory_close_fd [simp]: "same_memory s (close_fd fd s') = same_memory s s'"
  by (simp add: same_memory_def close_fd_def)


lemma same_memory_registry: "same_memory s s' \<Longrightarrow> registry s' xs = registry s xs"
  by (simp add: same_memory_def registry_def)


lemma same_memory_conn_port: "same_memory s s' \<Longrightarrow> conn_port s' = conn_port s"
  by (simp add: same_memory_def conn_port_def fun_eq_iff)


lemma tcp_create_socket_memory: "same_memory s (snd (tcp_create_socket portno cs s))"
  by (simp add: tcp_create_socket_def Let_def)


lemma tcp_connect_to_server_memory: "same_memory s (snd (tcp_connect_to_server fd portno co s))"
  by (simp add: tcp_connect_to_server_def)


lemma tcp_connect_to_server_state:
  "fst (tcp_connect_to_server fd portno co s) =
     (if portno \<le> 0 then STATE_IDLE
      else if fst co < 0 then (if snd co = EINPROGRESS then STATE_PENDING else STATE_IDLE)
      else STATE_READY)"
  by (simp add: tcp_connect_to_server_def)



lemma add_connection_duplicate:
  assumes "registry s xs" "b \<in> set xs" "conn_port s b = Some d"
  shows "add_connection d m cs co s = Some (None, logmsg PRINT_ERROR ''%u already connected'' [d] s)"
proof -
  from assms(2,3) have "List.find (\<lambda>a. conn_port s a = Some d) xs \<noteq> None"
    by (auto simp add: find_None_iff)
  then obtain x where "List.find (\<lambda>a. conn_port s a = Some d) xs = Some x"
    by auto
  with find_connection_registry [OF assms(1), of d] show ?thesis
    by (simp add: add_connection_def)
qed


lemma connect_state_cases:
  "fst (tcp_connect_to_server fd portno co s) = STATE_IDLE \<or>
   fst (tcp_connect_to_server fd portno co s) = STATE_PENDING \<or>
   fst (tcp_connect_to_server fd portno co s) = STATE_READY"
  by (simp add: tcp_connect_to_server_def)


lemma add_connection_new:
  assumes reg: "registry s xs" and nodup: "\<forall>b\<in>set xs. conn_port s b \<noteq> Some d"
    and fresh: "\<forall>a j. m = Some (a, j) \<longrightarrow> conn_heap s a = None"
  shows "\<exists>r s'. add_connection d m cs co s = Some (r, s') \<and>
     (r \<noteq> None) = (m \<noteq> None \<and> 0 \<le> fst (tcp_create_socket 0 cs s) \<and>
                    fst (tcp_connect_to_server (fst (tcp_create_socket 0 cs s)) d co s) \<noteq> STATE_IDLE) \<and>
     (case r of
        None \<Rightarrow> same_memory s s'
      | Some a \<Rightarrow> (\<exists>j. m = Some (a, j)) \<and> a \<notin> set xs \<and> registry s' (xs @ [a]) \<and> created d a s s' \<and>
          map_option c_state (conn_heap s' a) =
            Some (fst (tcp_connect_to_server (fst (tcp_create_socket 0 cs s)) d co s)))"
proof -
  from nodup have "List.find (\<lambda>a. conn_port s a = Some d) xs = None"
    by (auto simp add: find_None_iff)
  with find_connection_registry [OF reg, of d] have f: "find_connection d s = Some None"
    by simp
  show ?thesis
  proof (cases m)
    case None
    with f show ?thesis
      by (simp add: add_connection_def)
  next
    case (Some aj)
    obtain a j where aj: "aj = (a, j)"
      by (cases aj)
    with Some fresh have fr: "conn_heap s a = None"
      by simp
    have notin: "a \<notin> set xs"
      using reg fr by (auto simp add: registry_def dest: dll_live)
    define s1 where "s1 = s\<lparr>conn_heap := (conn_heap s)(a \<mapsto> j)\<rparr>"
    obtain sockfd s2 where cs: "tcp_create_socket 0 cs s1 = (sockfd, s2)"
      by (cases "tcp_create_socket 0 cs s1")
    have fd: "fst (tcp_create_socket 0 cs s) = sockfd"
      using cs by (auto simp add: tcp_create_socket_def Let_def split: if_splits)
    from tcp_create_socket_memory [of s1 0 cs] cs have m2: "same_memory s1 s2"
      by simp
    obtain st s3 where co: "tcp_connect_to_server sockfd d co s2 = (st, s3)"
      by (cases "tcp_connect_to_server sockfd d co s2")
    have st: "fst (tcp_connect_to_server sockfd d co s) = st"
      using co by (auto simp add: tcp_connect_to_server_def split: if_splits)
    from tcp_connect_to_server_memory [of s2 sockfd d co] co have m3: "same_memory s2 s3"
      by simp
    from connect_state_cases [of sockfd d co s] st
    have stc: "st = STATE_IDLE \<or> st = STATE_PENDING \<or> st = STATE_READY"
      by simp
    have h3: "conn_heap s3 = (conn_heap s)(a \<mapsto> j)" "conn_heap s2 = (conn_heap s)(a \<mapsto> j)"
      using m2 m3 by (simp_all add: same_memory_def s1_def)
    have heads: "first_conn_req_next s3 = first_conn_req_next s" "first_conn_req_prev s3 = first_conn_req_prev s"
      "first_conn_req_next s2 = first_conn_req_next s" "first_conn_req_prev s2 = first_conn_req_prev s"
      using m2 m3 by (simp_all add: same_memory_def s1_def)
    have rest: "buf_heap s3 = buf_heap s" "srv_heap s3 = srv_heap s"
      "first_conn_srv_next s3 = first_conn_srv_next s" "first_conn_srv_prev s3 = first_conn_srv_prev s"
      "buf_heap s2 = buf_heap s" "srv_heap s2 = srv_heap s"
      "first_conn_srv_next s2 = first_conn_srv_next s" "first_conn_srv_prev s2 = first_conn_srv_prev s"
      using m2 m3 by (simp_all add: same_memory_def s1_def)
    have undo: "(conn_heap s)(a := None) = conn_heap s"
      using fr by (simp add: fun_eq_iff)
    show ?thesis
    proof (cases "sockfd < 0")
      case True
      with f Some aj cs h3 heads rest undo fd show ?thesis
        by (simp add: add_connection_def s1_def [symmetric] same_memory_def)
    next
      case False
      note fdok = False
      show ?thesis
      proof (cases "st = STATE_IDLE")
        case True
        with f Some aj cs co fdok h3 heads rest undo fd st show ?thesis
          by (simp add: add_connection_def s1_def [symmetric] same_memory_def close_fd_def)
      next
        case False
        from reg have d: "dll (conn_heap s) (first_conn_req_next s) None xs None"
          and l: "first_conn_req_prev s = lastp None xs" and dist: "distinct xs"
          by (simp_all add: registry_def)
        show ?thesis
        proof (cases xs rule: rev_cases)
          case Nil
          with d l have "first_conn_req_next s = None" "first_conn_req_prev s = None"
            by simp_all
          with f Some aj cs co fdok False h3 heads rest fd st stc Nil show ?thesis
            by (simp add: add_connection_def s1_def [symmetric] conn_update_def registry_def
                created_def conn_data_def)
        next
          case (snoc xs' b)
          with l have lb: "first_conn_req_prev s = Some b"
            by simp
          from d snoc obtain e where e: "dll (conn_heap s) (first_conn_req_next s) None xs' (Some b)"
            "conn_heap s b = Some e" "c_prev e = lastp None xs'" "c_next e = None"
            by (auto simp add: dll_append split: option.splits)
          from notin dist snoc have ne: "a \<noteq> b" "a \<notin> set xs'" "b \<notin> set xs'" "distinct xs'"
            by auto
          from f Some aj cs co fdok False h3 heads rest fd st stc snoc lb e ne show ?thesis
            by (simp add: add_connection_def s1_def [symmetric] conn_update_def registry_def
                created_def conn_data_def dll_append)
        qed
      qed
    qed
  qed
qed

lemmas example_defs = empty_endpoint_def conn_example_def three_connections_def create_ok_def

text \<open>
  C10. Let the connection list be well linked. \<^verbatim>\<open>rem_connection\<close> for a port that
  no entry has returns the state as it was but for one more log line
  (\<^verbatim>\<open>Connection to %u not found\<close>): nothing is closed, unlinked or freed. For a
  port that an entry has, the first such entry \<open>a\<close> is the one removed: its
  descriptor is closed (when not negative), its address is freed, the list is the old
  one without \<open>a\<close>, again well linked in both directions and in the old order, and
  every other entry keeps its contents but for its link fields.
\<close>

theorem rem_connection_effect:
  assumes "registry s xs"
  shows "((\<forall>b\<in>set xs. conn_port s b \<noteq> Some d) \<longrightarrow>
            rem_connection d s = Some (logmsg PRINT_ERROR ''Connection to %u not found'' [d] s)) \<and>
         (xs = pre @ a # post \<and> (\<forall>b\<in>set pre. conn_port s b \<noteq> Some d) \<and>
          conn_heap s a = Some c \<and> c_destport c = d \<longrightarrow>
            (\<exists>s'. rem_connection d s = Some s' \<and> registry s' (pre @ post) \<and> removed a c s s'))"
  using assms rem_connection_absent [of s xs d] rem_connection_present [of s pre a post c d]
  by blast

lemma registry_three: "registry three_connections [1, 2, 3]"
  by (simp add: registry_def example_defs)

theorem rem_connection_effect_witness:
  "registry three_connections [1, 2, 3] \<and>
   conn_port three_connections 1 \<noteq> Some 9009 \<and> conn_port three_connections 2 \<noteq> Some 9009 \<and>
   conn_port three_connections 3 \<noteq> Some 9009 \<and>
   rem_connection 9009 three_connections =
     Some (logmsg PRINT_ERROR ''Connection to %u not found'' [9009] three_connections) \<and>
   conn_heap three_connections 2 = Some (conn_example 5 9002 (Some 3) (Some 1)) \<and>
   (\<exists>s'. rem_connection 9002 three_connections = Some s' \<and> registry s' [1, 3] \<and>
         conn_heap s' 2 = None \<and> closed s' = [5] \<and>
         map_option conn_data (conn_heap s' 1) = Some (conn_data (conn_example 4 9001 (Some 2) None)) \<and>
         map_option conn_data (conn_heap s' 3) = Some (conn_data (conn_example 6 9003 None (Some 2))))"
proof -
  have p: "\<forall>b\<in>set [1, 2, 3]. conn_port three_connections b \<noteq> Some 9009"
    by (simp add: conn_port_def example_defs)
  have c: "conn_heap three_connections 2 = Some (conn_example 5 9002 (Some 3) (Some 1))"
    by (simp add: example_defs)
  have q: "\<forall>b\<in>set [1]. conn_port three_connections b \<noteq> Some 9002"
    by (simp add: conn_port_def example_defs)
  from rem_connection_effect [OF registry_three, of 9009 "[1]" 2 "[3]" "conn_example 5 9002 (Some 3) (Some 1)"] p
  have one: "rem_connection 9009 three_connections =
     Some (logmsg PRINT_ERROR ''Connection to %u not found'' [9009] three_connections)"
    by blast
  from rem_connection_effect [OF registry_three, of 9002 "[1]" 2 "[3]" "conn_example 5 9002 (Some 3) (Some 1)"] c q
  obtain s' where "rem_connection 9002 three_connections = Some s'" "registry s' [1, 3]"
    "removed 2 (conn_example 5 9002 (Some 3) (Some 1)) three_connections s'"
    by (auto simp add: conn_example_def)
  then have "rem_connection 9002 three_connections = Some s' \<and> registry s' [1, 3] \<and>
         conn_heap s' 2 = None \<and> closed s' = [5] \<and>
         map_option conn_data (conn_heap s' 1) = Some (conn_data (conn_example 4 9001 (Some 2) None)) \<and>
         map_option conn_data (conn_heap s' 3) = Some (conn_data (conn_example 6 9003 None (Some 2)))"
    by (simp add: removed_def example_defs)
  with registry_three p one c show ?thesis
    by auto
qed

lemma c_destport_conn_data: "c_destport (conn_data c) = c_destport c"
  by (simp add: conn_data_def)

lemma conn_data_port:
  assumes "map_option conn_data x = map_option conn_data y"
  shows "map_option c_destport x = map_option c_destport y"
proof -
  have "map_option c_destport (map_option conn_data x) = map_option c_destport (map_option conn_data y)"
    by (simp add: assms)
  then show ?thesis
    by (simp add: option.map_comp comp_def c_destport_conn_data)
qed

lemma find_first: "\<forall>b\<in>set pre. \<not> P b \<Longrightarrow> P a \<Longrightarrow> List.find P (pre @ a # post) = Some a"
  by (induction pre) auto

lemma unique_ports_init: "unique_ports (init_connections s) []"
  by (simp add: unique_ports_def registry_def init_connections_def)

lemma unique_ports_add:
  assumes inv: "unique_ports s xs" and fresh: "\<forall>a j. m = Some (a, j) \<longrightarrow> conn_heap s a = None"
  shows "\<exists>r s'. add_connection d m cs co s = Some (r, s') \<and>
       unique_ports s' (case r of None \<Rightarrow> xs | Some a \<Rightarrow> xs @ [a]) \<and>
       (case r of None \<Rightarrow> True | Some a \<Rightarrow> a \<notin> set xs \<and> conn_port s' a = Some d) \<and>
       ((\<exists>b\<in>set xs. conn_port s b = Some d) \<longrightarrow>
          r = None \<and> s' = logmsg PRINT_ERROR ''%u already connected'' [d] s)"
proof (cases "\<exists>b\<in>set xs. conn_port s b = Some d")
  case True
  then obtain b where b: "b \<in> set xs" "conn_port s b = Some d"
    by blast
  from inv have reg: "registry s xs"
    by (simp add: unique_ports_def)
  have m: "same_memory s (logmsg PRINT_ERROR ''%u already connected'' [d] s)"
    by simp
  from add_connection_duplicate [OF reg b] inv same_memory_registry [OF m] same_memory_conn_port [OF m]
  show ?thesis
    using True by (simp add: unique_ports_def)
next
  case False
  from inv have reg: "registry s xs" and ports: "distinct (map (conn_port s) xs)"
    by (simp_all add: unique_ports_def)
  from False have nodup: "\<forall>b\<in>set xs. conn_port s b \<noteq> Some d"
    by blast
  from add_connection_new [OF reg nodup fresh, of cs co] obtain r s' where
    r: "add_connection d m cs co s = Some (r, s')" and
    c: "case r of None \<Rightarrow> same_memory s s'
        | Some a \<Rightarrow> (\<exists>j. m = Some (a, j)) \<and> a \<notin> set xs \<and> registry s' (xs @ [a]) \<and> created d a s s' \<and>
            map_option c_state (conn_heap s' a) =
              Some (fst (tcp_connect_to_server (fst (tcp_create_socket 0 cs s)) d co s))"
    by blast
  show ?thesis
  proof (cases r)
    case None
    with c have m: "same_memory s s'"
      by simp
    from r None inv same_memory_registry [OF m] same_memory_conn_port [OF m] False show ?thesis
      by (simp add: unique_ports_def)
  next
    case (Some a)
    with c have a: "a \<notin> set xs" "registry s' (xs @ [a])" "created d a s s'"
      by simp_all
    from a(3) have pa: "conn_port s' a = Some d"
      by (auto simp add: created_def conn_port_def)
    have same: "conn_port s' b = conn_port s b" if "b \<in> set xs" for b
    proof -
      from that a(1) have "b \<noteq> a"
        by auto
      with a(3) have "map_option conn_data (conn_heap s' b) = map_option conn_data (conn_heap s b)"
        by (simp add: created_def)
      then show ?thesis
        unfolding conn_port_def by (rule conn_data_port)
    qed
    then have eq: "map (conn_port s') xs = map (conn_port s) xs"
      by simp
    have d1: "distinct (map (conn_port s') xs)"
      unfolding eq by (rule ports)
    have "Some d \<notin> set (map (conn_port s') xs)"
      unfolding eq using nodup by auto
    with d1 pa have "distinct (map (conn_port s') (xs @ [a]))"
      by simp
    with r Some a pa False show ?thesis
      by (simp add: unique_ports_def)
  qed
qed

lemma unique_ports_rem:
  assumes inv: "unique_ports s xs"
  shows "\<exists>s' ys. rem_connection d s = Some s' \<and> unique_ports s' ys \<and>
     ys = (case List.find (\<lambda>b. conn_port s b = Some d) xs of None \<Rightarrow> xs | Some a \<Rightarrow> remove1 a xs)"
proof (cases "\<exists>b\<in>set xs. conn_port s b = Some d")
  case False
  from inv have reg: "registry s xs"
    by (simp add: unique_ports_def)
  from False have none: "\<forall>b\<in>set xs. conn_port s b \<noteq> Some d"
    by blast
  then have f: "List.find (\<lambda>b. conn_port s b = Some d) xs = None"
    by (auto simp add: find_None_iff)
  have m: "same_memory s (logmsg PRINT_ERROR ''Connection to %u not found'' [d] s)"
    by simp
  from rem_connection_absent [OF reg none] inv f same_memory_registry [OF m] same_memory_conn_port [OF m]
  show ?thesis
    by (simp add: unique_ports_def)
next
  case True
  from inv have reg: "registry s xs" and ports: "distinct (map (conn_port s) xs)"
    by (simp_all add: unique_ports_def)
  from split_list_first_prop [OF True] obtain pre a post where
    xs: "xs = pre @ a # post" and pa: "conn_port s a = Some d"
    and first: "\<forall>b\<in>set pre. conn_port s b \<noteq> Some d"
    by blast
  from pa obtain c where c: "conn_heap s a = Some c" "c_destport c = d"
    by (auto simp add: conn_port_def)
  from reg xs have dist: "distinct (pre @ a # post)"
    by (simp add: registry_def)
  from rem_connection_present [OF reg [unfolded xs] c first] obtain s' where
    s': "rem_connection d s = Some s'" "registry s' (pre @ post)" "removed a c s s'"
    by blast
  have f: "List.find (\<lambda>b. conn_port s b = Some d) xs = Some a"
    unfolding xs using first pa by (rule find_first)
  have rm: "remove1 a xs = pre @ post"
    using xs dist by (simp add: remove1_append)
  have same: "conn_port s' b = conn_port s b" if "b \<in> set (pre @ post)" for b
  proof -
    from that dist have "b \<noteq> a"
      by auto
    with s'(3) have "map_option conn_data (conn_heap s' b) = map_option conn_data (conn_heap s b)"
      by (simp add: removed_def)
    then show ?thesis
      unfolding conn_port_def by (rule conn_data_port)
  qed
  then have eq: "map (conn_port s') (pre @ post) = map (conn_port s) (pre @ post)"
    by (intro map_cong) simp_all
  have "distinct (map (conn_port s) (pre @ post))"
    using ports xs by auto
  then have "distinct (map (conn_port s') (pre @ post))"
    unfolding eq .
  with s' f rm show ?thesis
    by (simp add: unique_ports_def)
qed

text \<open>
  C6. \<open>unique_ports s xs\<close>: the connection list is \<open>xs\<close>, well linked, and no two
  of its entries have the same destination port. It holds after
  \<^verbatim>\<open>init_connections\<close>, and \<^verbatim>\<open>add_connection\<close> and \<^verbatim>\<open>rem_connection\<close>, the
  two functions that write the list, keep it, whatever \<^verbatim>\<open>malloc\<close> and the OS
  answer (\<^verbatim>\<open>malloc\<close> returning an address that is not live). When an entry for
  the port exists, \<^verbatim>\<open>add_connection\<close> returns \<^verbatim>\<open>NULL\<close> and the state is the old
  one but for the log line \<^verbatim>\<open>%u already connected\<close>. When it has added an entry,
  that entry is the only one for the port, and every further \<^verbatim>\<open>add_connection\<close>
  for the port is rejected in that way.
\<close>

theorem add_connection_unique:
  assumes inv: "unique_ports s xs" and fresh: "\<forall>a j. m = Some (a, j) \<longrightarrow> conn_heap s a = None"
  shows "unique_ports (init_connections s0) [] \<and>
     (\<exists>r s'. add_connection d m cs co s = Some (r, s') \<and>
        unique_ports s' (case r of None \<Rightarrow> xs | Some a \<Rightarrow> xs @ [a]) \<and>
        ((\<exists>b\<in>set xs. conn_port s b = Some d) \<longrightarrow>
           r = None \<and> s' = logmsg PRINT_ERROR ''%u already connected'' [d] s) \<and>
        (case r of
           None \<Rightarrow> True
         | Some a \<Rightarrow> a \<notin> set xs \<and> conn_port s' a = Some d \<and>
             filter (\<lambda>b. conn_port s' b = Some d) (xs @ [a]) = [a] \<and>
             (\<forall>m' cs' co'. add_connection d m' cs' co' s' =
                Some (None, logmsg PRINT_ERROR ''%u already connected'' [d] s')))) \<and>
     (\<exists>s' ys. rem_connection d s = Some s' \<and> unique_ports s' ys \<and>
        ys = (case List.find (\<lambda>b. conn_port s b = Some d) xs of None \<Rightarrow> xs | Some a \<Rightarrow> remove1 a xs))"
proof (intro conjI)
  show "unique_ports (init_connections s0) []"
    by (rule unique_ports_init)
next
  from unique_ports_add [OF inv fresh, of d cs co] obtain r s' where
    r: "add_connection d m cs co s = Some (r, s')"
    and u: "unique_ports s' (case r of None \<Rightarrow> xs | Some a \<Rightarrow> xs @ [a])"
    and n: "case r of None \<Rightarrow> True | Some a \<Rightarrow> a \<notin> set xs \<and> conn_port s' a = Some d"
    and dup: "(\<exists>b\<in>set xs. conn_port s b = Some d) \<longrightarrow>
          r = None \<and> s' = logmsg PRINT_ERROR ''%u already connected'' [d] s"
    by blast
  have "case r of
           None \<Rightarrow> True
         | Some a \<Rightarrow> a \<notin> set xs \<and> conn_port s' a = Some d \<and>
             filter (\<lambda>b. conn_port s' b = Some d) (xs @ [a]) = [a] \<and>
             (\<forall>m' cs' co'. add_connection d m' cs' co' s' =
                Some (None, logmsg PRINT_ERROR ''%u already connected'' [d] s'))"
  proof (cases r)
    case None
    then show ?thesis by simp
  next
    case (Some a)
    with n u have a: "a \<notin> set xs" "conn_port s' a = Some d" "registry s' (xs @ [a])"
      "distinct (map (conn_port s') (xs @ [a]))"
      by (simp_all add: unique_ports_def)
    from a(2,4) have "\<forall>b\<in>set xs. conn_port s' b \<noteq> Some d"
      by (auto simp add: image_iff)
    then have "filter (\<lambda>b. conn_port s' b = Some d) xs = []"
      by (simp add: filter_empty_conv)
    with a(2) have f: "filter (\<lambda>b. conn_port s' b = Some d) (xs @ [a]) = [a]"
      by simp
    have "add_connection d m' cs' co' s' = Some (None, logmsg PRINT_ERROR ''%u already connected'' [d] s')"
      for m' cs' co'
      by (rule add_connection_duplicate [OF a(3) _ a(2)]) simp
    with Some a f show ?thesis
      by simp
  qed
  with r u dup show "\<exists>r s'. add_connection d m cs co s = Some (r, s') \<and>
        unique_ports s' (case r of None \<Rightarrow> xs | Some a \<Rightarrow> xs @ [a]) \<and>
        ((\<exists>b\<in>set xs. conn_port s b = Some d) \<longrightarrow>
           r = None \<and> s' = logmsg PRINT_ERROR ''%u already connected'' [d] s) \<and>
        (case r of
           None \<Rightarrow> True
         | Some a \<Rightarrow> a \<notin> set xs \<and> conn_port s' a = Some d \<and>
             filter (\<lambda>b. conn_port s' b = Some d) (xs @ [a]) = [a] \<and>
             (\<forall>m' cs' co'. add_connection d m' cs' co' s' =
                Some (None, logmsg PRINT_ERROR ''%u already connected'' [d] s')))"
    by blast
next
  show "\<exists>s' ys. rem_connection d s = Some s' \<and> unique_ports s' ys \<and>
        ys = (case List.find (\<lambda>b. conn_port s b = Some d) xs of None \<Rightarrow> xs | Some a \<Rightarrow> remove1 a xs)"
    by (rule unique_ports_rem [OF inv])
qed

lemma find_from_None: "find_from h None d = Some None"
  by (subst find_from.simps) simp

lemma find_from_Some:
  "h a = Some c \<Longrightarrow>
   find_from h (Some a) d = (if c_destport c = d then Some (Some a) else find_from h (c_next c) d)"
  by (subst find_from.simps) simp

lemma unique_three: "unique_ports three_connections [1, 2, 3]"
  unfolding unique_ports_def
  by (rule conjI [OF registry_three]) (simp add: conn_port_def example_defs)

theorem add_connection_unique_witness:
  "unique_ports three_connections [1, 2, 3] \<and> conn_heap three_connections 7 = None \<and>
   conn_port three_connections 2 = Some 9002 \<and>
   add_connection 9002 (Some (7, conn_example 0 0 None None)) (create_ok 8) (- 1, EINPROGRESS)
       three_connections =
     Some (None, logmsg PRINT_ERROR ''%u already connected'' [9002] three_connections) \<and>
   (\<exists>s'. add_connection 9004 (Some (7, conn_example 0 0 None None)) (create_ok 8) (- 1, EINPROGRESS)
            three_connections = Some (Some 7, s') \<and>
         unique_ports s' [1, 2, 3, 7] \<and> conn_port s' 7 = Some 9004 \<and>
         filter (\<lambda>b. conn_port s' b = Some 9004) [1, 2, 3, 7] = [7] \<and>
         add_connection 9004 (Some (8, conn_example 0 0 None None)) (create_ok 9) (0, EOTHER) s' =
           Some (None, logmsg PRINT_ERROR ''%u already connected'' [9004] s'))"
proof -
  let ?m = "Some (7 :: addr, conn_example 0 0 None None)"
  have fresh: "\<forall>a j. ?m = Some (a, j) \<longrightarrow> conn_heap three_connections a = None"
    by (simp add: example_defs)
  have h: "conn_heap three_connections 7 = None" "conn_port three_connections 2 = Some 9002"
    by (simp_all add: conn_port_def example_defs)
  have ev: "fst (the (add_connection 9004 ?m (create_ok 8) (- 1, EINPROGRESS) three_connections)) = Some 7"
    by (simp add: add_connection_def find_connection_def find_from_None find_from_Some
        tcp_create_socket_def tcp_connect_to_server_def conn_update_def logmsg_def close_fd_def
        STATE_IDLE_def STATE_PENDING_def STATE_READY_def example_defs Let_def)
  from add_connection_unique [OF unique_three fresh, of three_connections 9002 "create_ok 8" "(- 1, EINPROGRESS)"] h
  have dup: "add_connection 9002 ?m (create_ok 8) (- 1, EINPROGRESS) three_connections =
     Some (None, logmsg PRINT_ERROR ''%u already connected'' [9002] three_connections)"
    by auto
  from add_connection_unique [OF unique_three fresh, of three_connections 9004 "create_ok 8" "(- 1, EINPROGRESS)"]
  obtain r s' where r: "add_connection 9004 ?m (create_ok 8) (- 1, EINPROGRESS) three_connections = Some (r, s')"
    and u: "unique_ports s' (case r of None \<Rightarrow> [1, 2, 3] | Some a \<Rightarrow> [1, 2, 3] @ [a])"
    and c: "case r of
           None \<Rightarrow> True
         | Some a \<Rightarrow> a \<notin> set [1, 2, 3] \<and> conn_port s' a = Some 9004 \<and>
             filter (\<lambda>b. conn_port s' b = Some 9004) ([1, 2, 3] @ [a]) = [a] \<and>
             (\<forall>m' cs' co'. add_connection 9004 m' cs' co' s' =
                Some (None, logmsg PRINT_ERROR ''%u already connected'' [9004] s'))"
    by blast
  from ev r have "r = Some 7"
    by simp
  with r u c have "add_connection 9004 ?m (create_ok 8) (- 1, EINPROGRESS)
            three_connections = Some (Some 7, s') \<and>
         unique_ports s' [1, 2, 3, 7] \<and> conn_port s' 7 = Some 9004 \<and>
         filter (\<lambda>b. conn_port s' b = Some 9004) [1, 2, 3, 7] = [7] \<and>
         add_connection 9004 (Some (8, conn_example 0 0 None None)) (create_ok 9) (0, EOTHER) s' =
           Some (None, logmsg PRINT_ERROR ''%u already connected'' [9004] s')"
    by simp
  with unique_three h dup show ?thesis
    by blast
qed

section \<open>Results about the send queue\<close>

lemma headp_simps [simp]: "headp [] = None" "headp (a # as) = Some a"
  by (simp_all add: headp_def)

lemma qseg_live: "qseg h p xs r \<Longrightarrow> a \<in> set xs \<Longrightarrow> \<exists>e. h a = Some e"
  by (induction xs arbitrary: p) (auto split: option.splits)

lemma qseg_append: "qseg h p (xs @ ys) r = (\<exists>m. qseg h p xs m \<and> qseg h m ys r)"
  by (induction xs arbitrary: p) (auto split: option.splits)

lemma qseg_frame:
  "(\<And>a. a \<in> set xs \<Longrightarrow> map_option b_next (h' a) = map_option b_next (h a)) \<Longrightarrow>
   qseg h' p xs r = qseg h p xs r"
proof (induction xs arbitrary: p)
  case Nil
  then show ?case by simp
next
  case (Cons a as)
  from Cons.prems [of a] have "map_option b_next (h' a) = map_option b_next (h a)"
    by simp
  moreover have "\<And>p. qseg h' p as r = qseg h p as r"
    using Cons.IH Cons.prems by simp
  ultimately show ?case
    by (cases "h a"; cases "h' a") auto
qed

lemma qseg_upd_notin [simp]: "a \<notin> set xs \<Longrightarrow> qseg (h(a := v)) p xs r = qseg h p xs r"
  by (rule qseg_frame) auto

lemma get_message_loop_step:
  "buf_heap s pending = Some e \<Longrightarrow>
   get_message_loop pending qlast s =
     (if b_buffer e = None then
        (case b_next e of
           None \<Rightarrow> Some (None, None, None,
             (logmsg PRINT_ERROR ''NULL buffer in sending queue list (msgix %d)'' [b_msgix e] s)
               \<lparr>buf_heap := (buf_heap s)(pending := None)\<rparr>)
         | Some p \<Rightarrow> get_message_loop p qlast
             ((logmsg PRINT_ERROR ''NULL buffer in sending queue list (msgix %d)'' [b_msgix e] s)
               \<lparr>buf_heap := (buf_heap s)(pending := None)\<rparr>))
      else Some (Some pending, Some pending, qlast, s))"
  by (subst get_message_loop.simps) (auto simp add: Let_def logmsg_def split: option.splits)

lemma restrict_all [simp]: "m |` UNIV = m"
  by (simp add: restrict_map_def)

lemma purged_valid_head: "buf_valid s a \<Longrightarrow> purged s (a # xs) = s"
  by (simp add: purged_def)

lemma get_message_loop_queue:
  "qseg (buf_heap s) (Some p) (p # xs) None \<Longrightarrow> distinct (p # xs) \<Longrightarrow>
   get_message_loop p qlast s =
     Some (headp (dropWhile (\<lambda>a. \<not> buf_valid s a) (p # xs)),
           headp (dropWhile (\<lambda>a. \<not> buf_valid s a) (p # xs)),
           (if dropWhile (\<lambda>a. \<not> buf_valid s a) (p # xs) = [] then None else qlast),
           purged s (p # xs))"
proof (induction xs arbitrary: p s)
  case Nil
  then obtain e where e: "buf_heap s p = Some e" "b_next e = None"
    by (auto split: option.splits)
  then show ?case
    by (simp add: get_message_loop_step buf_valid_def purged_def null_log_def logmsg_def
        restrict_map_def fun_eq_iff)
next
  case (Cons n xs)
  then obtain e where e: "buf_heap s p = Some e" "b_next e = Some n"
    "qseg (buf_heap s) (Some n) (n # xs) None"
    by (auto split: option.splits)
  show ?case
  proof (cases "b_buffer e = None")
    case False
    then obtain buf where "b_buffer e = Some buf"
      by auto
    with e show ?thesis
      by (simp add: get_message_loop_step buf_valid_def purged_def)
  next
    case True
    define s2 where "s2 = (logmsg PRINT_ERROR ''NULL buffer in sending queue list (msgix %d)'' [b_msgix e] s)
               \<lparr>buf_heap := (buf_heap s)(p := None)\<rparr>"
    from Cons.prems(2) have pn: "p \<notin> set (n # xs)" and dn: "distinct (n # xs)"
      by simp_all
    have h2: "buf_heap s2 = (buf_heap s)(p := None)"
      by (simp add: s2_def logmsg_def)
    have q2: "qseg (buf_heap s2) (Some n) (n # xs) None"
      unfolding h2 using e(3) qseg_upd_notin [OF pn, of "buf_heap s" None "Some n" None] by blast
    have v2: "buf_valid s2 a = buf_valid s a" if "a \<in> set (n # xs)" for a
      using that pn by (auto simp add: buf_valid_def h2)
    then have dw: "dropWhile (\<lambda>a. \<not> buf_valid s2 a) (n # xs) = dropWhile (\<lambda>a. \<not> buf_valid s a) (n # xs)"
      and tw: "takeWhile (\<lambda>a. \<not> buf_valid s2 a) (n # xs) = takeWhile (\<lambda>a. \<not> buf_valid s a) (n # xs)"
      by (auto intro!: dropWhile_cong takeWhile_cong)
    have nl: "map (null_log s2) (takeWhile (\<lambda>a. \<not> buf_valid s a) (n # xs)) =
              map (null_log s) (takeWhile (\<lambda>a. \<not> buf_valid s a) (n # xs))"
    proof (rule map_cong [OF refl])
      fix a assume "a \<in> set (takeWhile (\<lambda>a. \<not> buf_valid s a) (n # xs))"
      then have "a \<in> set (n # xs)"
        by (rule set_takeWhileD [THEN conjunct1])
      with pn have "a \<noteq> p"
        by auto
      then show "null_log s2 a = null_log s a"
        by (simp add: null_log_def h2)
    qed
    have inv: "\<not> buf_valid s p"
      using e True by (simp add: buf_valid_def)
    have pur: "purged s2 (n # xs) = purged s (p # n # xs)"
      unfolding purged_def tw nl using inv e
      by (simp add: s2_def logmsg_def null_log_def restrict_map_def fun_eq_iff)
    from Cons.IH [OF q2 dn, of ] True e inv show ?thesis
      by (simp add: get_message_loop_step s2_def [symmetric] dw pur del: dropWhile.simps takeWhile.simps)
        (simp add: inv)
  qed
qed

lemma qseg_head: "qseg h p xs None \<Longrightarrow> p = headp xs"
  by (cases xs) auto

lemma last_dropWhile: "dropWhile P xs \<noteq> [] \<Longrightarrow> last (dropWhile P xs) = last xs"
  by (induction xs) (auto split: if_splits)

lemma lastp_dropWhile:
  "(if dropWhile P xs = [] then None else lastp None xs) = lastp None (dropWhile P xs)"
  by (auto simp add: lastp_def last_dropWhile)

lemma takeWhile_dropWhile_disjoint:
  assumes "distinct xs"
  shows "set (takeWhile P xs) \<inter> set (dropWhile P xs) = {}"
proof -
  from assms have "distinct (takeWhile P xs @ dropWhile P xs)"
    by (simp only: takeWhile_dropWhile_id)
  then show ?thesis
    by (simp only: distinct_append)
qed

lemma purged_Nil [simp]: "purged s [] = s"
  by (simp add: purged_def)

lemma queue_purged:
  assumes "queue s qfirst qlast xs"
  shows "queue (purged s xs) (headp (dropWhile (\<lambda>a. \<not> buf_valid s a) xs))
           (lastp None (dropWhile (\<lambda>a. \<not> buf_valid s a) xs))
           (dropWhile (\<lambda>a. \<not> buf_valid s a) xs)"
proof -
  let ?tw = "takeWhile (\<lambda>a. \<not> buf_valid s a) xs" and ?dw = "dropWhile (\<lambda>a. \<not> buf_valid s a) xs"
  have q: "qseg (buf_heap s) qfirst (?tw @ ?dw) None"
    unfolding takeWhile_dropWhile_id using assms by (simp_all add: queue_def)
  from assms have dx: "distinct xs"
    by (simp add: queue_def)
  note d = takeWhile_dropWhile_disjoint [OF dx, of "\<lambda>a. \<not> buf_valid s a"]
  from q [unfolded qseg_append] obtain m where m: "qseg (buf_heap s) m ?dw None"
    by blast
  have "qseg (buf_heap s |` (- set ?tw)) m ?dw None = qseg (buf_heap s) m ?dw None"
  proof (rule qseg_frame)
    fix a assume "a \<in> set ?dw"
    with d have "a \<notin> set ?tw"
      by auto
    then show "map_option b_next ((buf_heap s |` (- set ?tw)) a) = map_option b_next (buf_heap s a)"
      by simp
  qed
  with m have "qseg (buf_heap (purged s xs)) m ?dw None"
    by (simp add: purged_def)
  moreover from this have "m = headp ?dw"
    by (rule qseg_head)
  moreover from dx have "distinct ?dw"
    by simp
  ultimately show ?thesis
    by (simp add: queue_def)
qed

lemma get_message_queue:
  assumes "queue s qfirst qlast xs"
  shows "get_message (Some qfirst) (Some qlast) s =
     Some (headp (dropWhile (\<lambda>a. \<not> buf_valid s a) xs),
           Some (headp (dropWhile (\<lambda>a. \<not> buf_valid s a) xs)),
           Some (lastp None (dropWhile (\<lambda>a. \<not> buf_valid s a) xs)),
           purged s xs)"
proof (cases xs)
  case Nil
  with assms show ?thesis
    by (simp add: queue_def get_message_def)
next
  case (Cons p xs')
  with assms have q: "qseg (buf_heap s) (Some p) (p # xs') None" and f: "qfirst = Some p"
    and l: "qlast = lastp None xs" and d: "distinct (p # xs')"
    by (auto simp add: queue_def)
  let ?dw = "dropWhile (\<lambda>a. \<not> buf_valid s a) xs"
  have loop: "get_message_loop p qlast s =
      Some (headp ?dw, headp ?dw, (if ?dw = [] then None else qlast), purged s xs)"
    unfolding Cons by (rule get_message_loop_queue [OF q d])
  have eq: "(if ?dw = [] then None else qlast) = lastp None ?dw"
    unfolding l by (rule lastp_dropWhile)
  have loop': "get_message_loop p qlast s = Some (headp ?dw, headp ?dw, lastp None ?dw, purged s xs)"
    using loop eq by (simp only:)
  show ?thesis
    unfolding get_message_def f by (simp add: loop')
qed

text \<open>
  C9. Let the queue behind the two list heads be well linked, with entries \<open>xs\<close> from
  the oldest on; an entry is valid when its buffer pointer is not \<^verbatim>\<open>NULL\<close>.
  \<^verbatim>\<open>get_message\<close> returns the first valid entry of \<open>xs\<close>, and \<^verbatim>\<open>NULL\<close> when
  there is none (the queue is empty or holds invalid entries only). The entries before
  the returned one, all invalid, are freed, one log line each, and the heads then
  hold what is left, again a well linked queue that starts with the entry returned.
  An entry returned is live and its buffer pointer is not \<^verbatim>\<open>NULL\<close>. With a
  \<^verbatim>\<open>NULL\<close> head pointer the function returns \<^verbatim>\<open>NULL\<close> and changes nothing.
\<close>

theorem get_message_result:
  assumes "queue s qfirst qlast xs"
  shows "get_message (Some qfirst) (Some qlast) s =
           Some (headp (dropWhile (\<lambda>a. \<not> buf_valid s a) xs),
                 Some (headp (dropWhile (\<lambda>a. \<not> buf_valid s a) xs)),
                 Some (lastp None (dropWhile (\<lambda>a. \<not> buf_valid s a) xs)),
                 purged s xs) \<and>
         queue (purged s xs) (headp (dropWhile (\<lambda>a. \<not> buf_valid s a) xs))
           (lastp None (dropWhile (\<lambda>a. \<not> buf_valid s a) xs))
           (dropWhile (\<lambda>a. \<not> buf_valid s a) xs) \<and>
         (\<forall>a\<in>set (takeWhile (\<lambda>a. \<not> buf_valid s a) xs).
            \<not> buf_valid s a \<and> buf_heap (purged s xs) a = None) \<and>
         (\<forall>a. headp (dropWhile (\<lambda>a. \<not> buf_valid s a) xs) = Some a \<longrightarrow>
            (\<exists>e buf. buf_heap (purged s xs) a = Some e \<and> buf_heap s a = Some e \<and> b_buffer e = Some buf)) \<and>
         get_message None lastptr s = Some (None, None, lastptr, s) \<and>
         get_message firstptr None s = Some (None, firstptr, None, s)"
proof (intro conjI ballI allI impI)
  show "get_message (Some qfirst) (Some qlast) s =
           Some (headp (dropWhile (\<lambda>a. \<not> buf_valid s a) xs),
                 Some (headp (dropWhile (\<lambda>a. \<not> buf_valid s a) xs)),
                 Some (lastp None (dropWhile (\<lambda>a. \<not> buf_valid s a) xs)),
                 purged s xs)"
    by (rule get_message_queue [OF assms])
  show "queue (purged s xs) (headp (dropWhile (\<lambda>a. \<not> buf_valid s a) xs))
           (lastp None (dropWhile (\<lambda>a. \<not> buf_valid s a) xs))
           (dropWhile (\<lambda>a. \<not> buf_valid s a) xs)"
    by (rule queue_purged [OF assms])
  show "get_message None lastptr s = Some (None, None, lastptr, s)"
    by (simp add: get_message_def)
  show "get_message firstptr None s = Some (None, firstptr, None, s)"
    by (cases firstptr) (simp_all add: get_message_def)
next
  fix a assume "a \<in> set (takeWhile (\<lambda>a. \<not> buf_valid s a) xs)"
  then show "\<not> buf_valid s a" "buf_heap (purged s xs) a = None"
    by (auto simp add: purged_def dest: set_takeWhileD)
next
  fix a assume h: "headp (dropWhile (\<lambda>a. \<not> buf_valid s a) xs) = Some a"
  then obtain ys where ys: "dropWhile (\<lambda>a. \<not> buf_valid s a) xs = a # ys"
    by (auto simp add: headp_def split: list.splits)
  then have v: "buf_valid s a"
    using hd_dropWhile [of "\<lambda>a. \<not> buf_valid s a" xs] by simp
  from assms have "distinct xs"
    by (simp add: queue_def)
  from takeWhile_dropWhile_disjoint [OF this, of "\<lambda>a. \<not> buf_valid s a"] ys have "a \<notin> set (takeWhile (\<lambda>a. \<not> buf_valid s a) xs)"
    by auto
  with v show "\<exists>e buf. buf_heap (purged s xs) a = Some e \<and> buf_heap s a = Some e \<and> b_buffer e = Some buf"
    by (auto simp add: purged_def buf_valid_def split: option.splits)
qed

theorem get_message_result_witness:
  "queue queue_example (Some 11) (Some 14) [11, 12, 13, 14] \<and>
   get_message (Some (Some 11)) (Some (Some 14)) queue_example =
     Some (Some 13, Some (Some 13), Some (Some 14), purged queue_example [11, 12, 13, 14]) \<and>
   queue (purged queue_example [11, 12, 13, 14]) (Some 13) (Some 14) [13, 14] \<and>
   buf_heap (purged queue_example [11, 12, 13, 14]) 11 = None \<and>
   buf_heap (purged queue_example [11, 12, 13, 14]) 12 = None \<and>
   buf_heap (purged queue_example [11, 12, 13, 14]) 13 = Some (buf_example (Some 14) 3 (Some [104, 105])) \<and>
   log (purged queue_example [11, 12, 13, 14]) =
     [(PRINT_ERROR, ''NULL buffer in sending queue list (msgix %d)'', [1]),
      (PRINT_ERROR, ''NULL buffer in sending queue list (msgix %d)'', [2])]"
proof -
  have q: "queue queue_example (Some 11) (Some 14) [11, 12, 13, 14]"
    by (simp add: queue_def queue_example_def buf_example_def empty_endpoint_def lastp_def)
  have v: "\<not> buf_valid queue_example 11" "\<not> buf_valid queue_example 12" "buf_valid queue_example 13"
    by (simp_all add: buf_valid_def queue_example_def buf_example_def empty_endpoint_def)
  then have dw: "dropWhile (\<lambda>a. \<not> buf_valid queue_example a) [11, 12, 13, 14] = [13, 14]"
    and tw: "takeWhile (\<lambda>a. \<not> buf_valid queue_example a) [11, 12, 13, 14] = [11, 12]"
    by simp_all
  have p: "buf_heap (purged queue_example [11, 12, 13, 14]) 11 = None"
    "buf_heap (purged queue_example [11, 12, 13, 14]) 12 = None"
    "buf_heap (purged queue_example [11, 12, 13, 14]) 13 = Some (buf_example (Some 14) 3 (Some [104, 105]))"
    "log (purged queue_example [11, 12, 13, 14]) =
     [(PRINT_ERROR, ''NULL buffer in sending queue list (msgix %d)'', [1]),
      (PRINT_ERROR, ''NULL buffer in sending queue list (msgix %d)'', [2])]"
    unfolding purged_def tw
    by (simp_all add: null_log_def queue_example_def buf_example_def empty_endpoint_def)
  from get_message_result [OF q, of None None] dw p q show ?thesis
    by (simp add: lastp_def del: dropWhile.simps takeWhile.simps)
qed

section \<open>Results about the worker\<close>

lemma child_send_loop_None:
  "child_send_loop clientsock client_port None os k l s = Some (l, s)"
  by (subst child_send_loop.simps) simp

lemma child_send_loop_null:
  "buf_heap s p = Some e \<Longrightarrow> b_buffer e = None \<Longrightarrow>
   child_send_loop clientsock client_port (Some p) os k l s =
     child_send_loop clientsock client_port (b_next e) os k
       (l\<lparr>ch_firstmsg := b_next e,
          ch_lastmsg := (if b_next e = None then None else ch_lastmsg l)\<rparr>)
       (s\<lparr>buf_heap := (buf_heap s)(p := None)\<rparr>)"
  by (subst child_send_loop.simps) simp

lemma child_send_loop_blocked:
  "buf_heap s p = Some e \<Longrightarrow> b_buffer e = Some buf \<Longrightarrow>
   tcp_send_message buf (int (length buf)) (ch_send_count l + 1) (os k) = (SEND_BLOCKED, bytes) \<Longrightarrow>
   child_send_loop clientsock client_port (Some p) os k l s =
     child_send_loop clientsock client_port (b_next e) os (Suc k) l
       (logmsg PRINT_ERROR ''socket sendmsg (port %u): blocked'' [client_port] s)"
  by (subst child_send_loop.simps) simp

lemma child_send_loop_failure:
  "buf_heap s p = Some e \<Longrightarrow> b_buffer e = Some buf \<Longrightarrow>
   tcp_send_message buf (int (length buf)) (ch_send_count l + 1) (os k) = (SEND_FAILURE, bytes) \<Longrightarrow>
   child_send_loop clientsock client_port (Some p) os k l s =
     Some (l\<lparr>ch_running := False\<rparr>,
           logmsg PRINT_ERROR ''socket sendmsg (port %u): %s'' [client_port] s)"
  by (subst child_send_loop.simps) simp

lemma child_send_loop_complete:
  "buf_heap s p = Some e \<Longrightarrow> b_buffer e = Some buf \<Longrightarrow>
   tcp_send_message buf (int (length buf)) (ch_send_count l + 1) (os k) = (SEND_COMPLETE, bytes) \<Longrightarrow>
   child_send_loop clientsock client_port (Some p) os k l s =
     child_send_loop clientsock client_port (b_next e) os (Suc k)
       (l\<lparr>ch_firstmsg := b_next e,
          ch_lastmsg := (if b_next e = None then None else ch_lastmsg l),
          ch_send_count := ch_send_count l + 1\<rparr>)
       (s\<lparr>wire := wire s @ [(clientsock, bytes)],
          buf_heap := (buf_heap s)(p := None)\<rparr>)"
  by (subst child_send_loop.simps) simp

lemma replicate_update_same [simp]: "(replicate n x)[i := x] = replicate n x"
  by (induction n arbitrary: i) (simp_all split: nat.splits)

lemmas child_eval = child_iteration_def child_read_event_def child_send_pending_def
  child_send_loop_None child_send_loop_null child_send_loop_blocked child_send_loop_failure
  child_send_loop_complete netio_eval MAX_MESSAGE_LEN_def child_init_def remove_term_def
  c_string_def takeWhile_replicate empty_endpoint_def buf_example_def logmsg_def Let_def
  PRINT_SENT_def two_frames_def blocked_then_sent_def

text \<open>
  What the send section of the worker's loop would do with a \<^verbatim>\<open>sendmsg\<close> that
  fails with \<^verbatim>\<open>EWOULDBLOCK\<close>, as on a non-blocking socket: a blocked send does
  not leave the loop, \<^verbatim>\<open>pending = next\<close> goes on to the later entries, and the
  branch for a completed send sets \<^verbatim>\<open>firstmsg.next\<close> to \<^verbatim>\<open>pending->next\<close> as if
  \<^verbatim>\<open>pending\<close> were the first entry. In two turns with the messages \<open>hi\<close> and
  \<open>yo\<close>, the send of \<open>hi\<close> blocking in both and the send of \<open>yo\<close> completing,
  the wire holds the frame of \<open>yo\<close> alone, both list heads are \<^verbatim>\<open>NULL\<close>, and the
  entry of \<open>hi\<close> is still allocated, in no queue. The result on the order of the
  worker's messages therefore assumes a socket on which \<^verbatim>\<open>sendmsg\<close> does not
  answer so, which is what the worker has.
\<close>

lemma child_send_blocked_overtaken:
  "do {
     (rx1, l1, s1) \<leftarrow> child_iteration 7 9000 77 1 True two_frames True (Some (21, buf_example None 0 None))
        (\<lambda>k. (- 1, EWOULDBLOCK)) child_init empty_endpoint;
     (rx2, l2, s2) \<leftarrow> child_iteration 7 9000 77 1 True rx1 True (Some (22, buf_example None 0 None))
        blocked_then_sent l1 s1;
     Some (wire s1, ch_firstmsg l1, wire s2, ch_firstmsg l2, ch_lastmsg l2, ch_send_count l2,
           map_option b_buffer (buf_heap s2 21), buf_heap s2 22, rx2)
   } =
   Some ([], Some 21, [(7, frame_bytes [121, 111] 2 1)], None, None, 1, Some (Some [104, 105]), None, [])"
  by (simp add: child_eval)

section \<open>Results about send\_message\<close>

lemma dropWhile_all_valid: "list_all P xs \<Longrightarrow> dropWhile (\<lambda>a. \<not> P a) xs = xs"
  by (cases xs) simp_all

lemma purged_all_valid: "list_all (buf_valid s) xs \<Longrightarrow> purged s xs = s"
  by (cases xs) (simp_all add: purged_valid_head)

lemma get_message_valid:
  assumes q: "queue s qfirst qlast xs" and v: "list_all (buf_valid s) xs"
  shows "get_message (Some qfirst) (Some qlast) s = Some (headp xs, Some qfirst, Some qlast, s)"
proof -
  from q have "qfirst = headp xs" "qlast = lastp None xs"
    by (auto simp add: queue_def dest: qseg_head)
  with get_message_queue [OF q] show ?thesis
    by (simp only: dropWhile_all_valid [OF v] purged_all_valid [OF v])
qed

lemma conn_same_heads: "c\<lparr>c_msgfirst := c_msgfirst c, c_msglast := c_msglast c\<rparr> = c"
  by simp

lemma set_queue_heads_same:
  "conn_heap s p = Some c \<Longrightarrow> set_queue_heads p (Some (c_msgfirst c)) (Some (c_msglast c)) s = Some s"
  by (simp add: set_queue_heads_def conn_update_def map_upd_triv)

lemma set_queue_heads_live:
  "conn_heap s p = Some c \<Longrightarrow>
   set_queue_heads p (Some f) (Some l) s =
     Some (s\<lparr>conn_heap := (conn_heap s)(p \<mapsto> c\<lparr>c_msgfirst := f, c_msglast := l\<rparr>)\<rparr>)"
  by (simp add: set_queue_heads_def conn_update_def)

lemma dll_conn_upd:
  assumes "h p = Some c" "c_next c' = c_next c" "c_prev c' = c_prev c"
  shows "dll (h(p \<mapsto> c')) a q xs r = dll h a q xs r"
  using assms by (intro dll_frame) simp

lemma unique_ports_conn_upd:
  assumes "unique_ports s cs" "conn_heap s p = Some c"
    "c_next c' = c_next c" "c_prev c' = c_prev c" "c_destport c' = c_destport c"
    "conn_heap s' = (conn_heap s)(p \<mapsto> c')"
    "first_conn_req_next s' = first_conn_req_next s" "first_conn_req_prev s' = first_conn_req_prev s"
  shows "unique_ports s' cs"
proof -
  have "conn_port s' = conn_port s"
    using assms by (auto simp add: conn_port_def fun_eq_iff)
  with assms dll_conn_upd [of "conn_heap s" p c c'] show ?thesis
    by (simp add: unique_ports_def registry_def)
qed

lemma rem_connection_self:
  assumes inv: "unique_ports s cs" and p: "p \<in> set cs" and c: "conn_heap s p = Some c"
  shows "\<exists>s'. rem_connection (c_destport c) s = Some s' \<and> unique_ports s' (remove1 p cs) \<and>
              removed p c s s'"
proof -
  from c have port: "conn_port s p = Some (c_destport c)"
    by (simp add: conn_port_def)
  with p have "List.find (\<lambda>b. conn_port s b = Some (c_destport c)) cs \<noteq> None"
    by (auto simp add: find_None_iff)
  then obtain a where f: "List.find (\<lambda>b. conn_port s b = Some (c_destport c)) cs = Some a"
    by blast
  then have "a \<in> set cs" "conn_port s a = Some (c_destport c)"
    by (auto simp add: find_Some_iff)
  with inv p port have a: "a = p"
    by (auto simp add: unique_ports_def distinct_map inj_on_def)
  from inv have reg: "registry s cs"
    by (simp add: unique_ports_def)
  from f obtain pre post where cs: "cs = pre @ p # post"
     and first: "\<forall>b\<in>set pre. conn_port s b \<noteq> Some (c_destport c)"
    unfolding a find_Some_iff by (metis in_set_conv_nth nth_append_length id_take_nth_drop nth_take length_take min.absorb2 less_imp_le)
  from reg cs have dist: "distinct (pre @ p # post)"
    by (simp add: registry_def)
  from rem_connection_present [OF reg [unfolded cs] c refl first] obtain s' where
    s': "rem_connection (c_destport c) s = Some s'" "removed p c s s'"
    by blast
  from unique_ports_rem [OF inv, of "c_destport c"] f a s' show ?thesis
    by simp
qed

lemma queue_rem_message:
  assumes q: "queue s qfirst qlast (h # t)"
  shows "rem_message (Some qfirst) (Some qlast) s =
           Some (Some (headp t), Some (lastp None t), s\<lparr>buf_heap := (buf_heap s)(h := None)\<rparr>) \<and>
         queue (s\<lparr>buf_heap := (buf_heap s)(h := None)\<rparr>) (headp t) (lastp None t) t"
proof -
  from q obtain e where f: "qfirst = Some h" and e: "buf_heap s h = Some e"
    and t: "qseg (buf_heap s) (b_next e) t None" and l: "qlast = lastp None (h # t)"
    and d: "h \<notin> set t" "distinct t"
    by (auto simp add: queue_def split: option.splits)
  from t have n: "b_next e = headp t"
    by (rule qseg_head)
  have l': "(if b_next e = None then None else qlast) = lastp None t"
    unfolding n l by (cases t) (simp_all add: lastp_def)
  from t d have "queue (s\<lparr>buf_heap := (buf_heap s)(h := None)\<rparr>) (headp t) (lastp None t) t"
    by (simp add: queue_def n)
  with f e n l' show ?thesis
    by (simp add: rem_message_def)
qed

lemma queue_add_message:
  assumes q: "queue s qfirst qlast xs" and fresh: "buf_heap s a = None"
  shows "\<exists>H. add_message (Some qfirst) (Some qlast) ix (Some b) (Some (a, j)) True s =
           Some (0, Some (headp (xs @ [a])), Some (Some a), s\<lparr>buf_heap := H\<rparr>) \<and>
         queue (s\<lparr>buf_heap := H\<rparr>) (headp (xs @ [a])) (Some a) (xs @ [a]) \<and>
         H a = Some (j\<lparr>b_buffer := Some b, b_msgix := ix, b_next := None\<rparr>) \<and>
         (\<forall>x. x \<noteq> a \<longrightarrow> map_option b_buffer (H x) = map_option b_buffer (buf_heap s x))"
proof (cases xs rule: rev_cases)
  case Nil
  with q have "qfirst = None" "qlast = None"
    by (simp_all add: queue_def)
  with Nil show ?thesis
    by (intro exI [of _ "(buf_heap s)(a \<mapsto> j\<lparr>b_buffer := Some b, b_msgix := ix, b_next := None\<rparr>)"])
       (simp add: add_message_def queue_def)
next
  case (snoc ys z)
  from q have f: "qfirst = headp xs"
    by (auto simp add: queue_def dest: qseg_head)
  from q snoc obtain e where l: "qlast = Some z"
    and ys: "qseg (buf_heap s) qfirst ys (Some z)" and z: "buf_heap s z = Some e" "b_next e = None"
    and d: "z \<notin> set ys" "distinct ys"
    by (auto simp add: queue_def qseg_append split: option.splits)
  from q snoc fresh have a: "a \<notin> set ys" "a \<noteq> z"
    by (auto simp add: queue_def dest: qseg_live)
  let ?H = "(buf_heap s)(a \<mapsto> j\<lparr>b_buffer := Some b, b_msgix := ix, b_next := None\<rparr>,
                         z \<mapsto> e\<lparr>b_next := Some a\<rparr>)"
  have h: "headp (xs @ [a]) = headp xs"
    using snoc by (cases ys) simp_all
  from ys d a have "qseg ?H qfirst ys (Some z)"
    by simp
  with a d have "queue (s\<lparr>buf_heap := ?H\<rparr>) qfirst (Some a) (xs @ [a])"
    unfolding snoc by (simp add: queue_def qseg_append)
  moreover have "add_message (Some qfirst) (Some qlast) ix (Some b) (Some (a, j)) True s =
      Some (0, Some qfirst, Some (Some a), s\<lparr>buf_heap := ?H\<rparr>)"
    using l z a by (simp add: add_message_def)
  ultimately show ?thesis
    using a z by (intro exI [of _ ?H]) (simp add: h f)
qed

lemma queue_heads_live:
  "conn_heap s p = Some c \<Longrightarrow> queue_heads p s = Some (Some (c_msgfirst c), Some (c_msglast c))"
  by (simp add: queue_heads_def)

lemma conn_update_live:
  "conn_heap s p = Some c \<Longrightarrow> conn_update p f s = Some (s\<lparr>conn_heap := (conn_heap s)(p \<mapsto> f c)\<rparr>)"
  by (simp add: conn_update_def)

lemma send_message_nothing:
  assumes inv: "sendq s cs p c []"
  shows "send_message p None os m1 m2 s = Some (- 1, s)"
proof -
  from inv have c: "conn_heap s p = Some c" and q: "queue s (c_msgfirst c) (c_msglast c) []"
    by (simp_all add: sendq_def)
  from get_message_valid [OF q] c show ?thesis
    by (simp add: send_message_def queue_heads_live set_queue_heads_same)
qed

lemma send_message_head:
  assumes inv: "sendq s cs p c (h # t)"
    and st: "tcp_send_message (buf_text s h) (int (length (buf_text s h))) (c_msgix c) os = (st, bytes)"
  shows "send_message p None os m1 m2 s =
     (case st of
        SEND_COMPLETE \<Rightarrow>
          Some (0, s\<lparr>wire := wire s @ [(c_sockfd c, bytes)],
                     conn_heap := (conn_heap s)(p \<mapsto> c\<lparr>c_sntix := c_sntix c + 1,
                        c_msgfirst := headp t, c_msglast := lastp None t\<rparr>),
                     buf_heap := (buf_heap s)(h := None)\<rparr>)
      | SEND_BLOCKED \<Rightarrow>
          Some (- 1, (logmsg PRINT_ERROR ''socket sendmsg (port %u): blocked'' [c_destport c] s)
                     \<lparr>conn_heap := (conn_heap s)(p \<mapsto> c\<lparr>c_pndix := c_pndix c + 1\<rparr>)\<rparr>)
      | SEND_FAILURE \<Rightarrow>
          rem_connection (c_destport c)
            (logmsg PRINT_ERROR ''socket sendmsg (port %u): %s'' [c_destport c] s) \<bind>
          (\<lambda>s'. Some (- 1, s')))"
proof -
  from inv have c: "conn_heap s p = Some c" and q: "queue s (c_msgfirst c) (c_msglast c) (h # t)"
    and v: "list_all (buf_valid s) (h # t)"
    by (simp_all add: sendq_def)
  from v obtain e hb where e: "buf_heap s h = Some e" "b_buffer e = Some hb"
    by (auto simp add: buf_valid_def split: option.splits)
  then have tx: "buf_text s h = hb"
    by (simp add: buf_text_def)
  let ?s4 = "s\<lparr>wire := wire s @ [(c_sockfd c, bytes)],
               conn_heap := (conn_heap s)(p \<mapsto> c\<lparr>c_sntix := c_sntix c + 1\<rparr>)\<rparr>"
  from q have "queue ?s4 (c_msgfirst c) (c_msglast c) (h # t)"
    by (simp add: queue_def)
  note rm = queue_rem_message [OF this, THEN conjunct1]
  show ?thesis
  proof (cases st)
    case SEND_COMPLETE
    with get_message_valid [OF q v] c e st [unfolded tx] rm show ?thesis
      by (simp add: send_message_def queue_heads_live set_queue_heads_same conn_update_live
            set_queue_heads_live)
  next
    case SEND_BLOCKED
    with get_message_valid [OF q v] c e st [unfolded tx] show ?thesis
      by (simp add: send_message_def queue_heads_live set_queue_heads_same conn_update_live
            logmsg_def)
  next
    case SEND_FAILURE
    with get_message_valid [OF q v] c e st [unfolded tx] show ?thesis
      by (simp add: send_message_def queue_heads_live set_queue_heads_same)
  qed
qed

lemma send_message_empty:
  assumes inv: "sendq s cs p c []"
    and st: "tcp_send_message b (int (length b)) (c_msgix c) os = (st, bytes)"
    and fresh: "buf_heap s a = None"
  shows "send_message p (Some b) os (Some (a, j)) True s =
     (case st of
        SEND_COMPLETE \<Rightarrow>
          Some (0, s\<lparr>wire := wire s @ [(c_sockfd c, bytes)],
                     conn_heap := (conn_heap s)(p \<mapsto> c\<lparr>c_sntix := c_sntix c + 1\<rparr>)\<rparr>)
      | SEND_BLOCKED \<Rightarrow>
          Some (- 1, (logmsg PRINT_ERROR ''socket sendmsg (port %u): blocked'' [c_destport c] s)
                     \<lparr>buf_heap := (buf_heap s)(a \<mapsto> j\<lparr>b_buffer := Some b, b_msgix := c_msgix c, b_next := None\<rparr>),
                      conn_heap := (conn_heap s)(p \<mapsto> c\<lparr>c_msgfirst := Some a, c_msglast := Some a,
                                                         c_pndix := c_pndix c + 1\<rparr>)\<rparr>)
      | SEND_FAILURE \<Rightarrow>
          rem_connection (c_destport c)
            (logmsg PRINT_ERROR ''socket sendmsg (port %u): %s'' [c_destport c] s) \<bind>
          (\<lambda>s'. Some (- 1, s')))"
proof -
  from inv have c: "conn_heap s p = Some c" and q: "queue s (c_msgfirst c) (c_msglast c) []"
    by (simp_all add: sendq_def)
  from q have heads: "c_msgfirst c = None" "c_msglast c = None"
    by (simp_all add: queue_def)
  show ?thesis
  proof (cases st)
    case SEND_COMPLETE
    with get_message_valid [OF q] c st show ?thesis
      by (simp add: send_message_def queue_heads_live set_queue_heads_same conn_update_live)
  next
    case SEND_BLOCKED
    with get_message_valid [OF q] c st heads show ?thesis
      by (simp add: send_message_def queue_heads_live set_queue_heads_same conn_update_live
            set_queue_heads_live add_message_def logmsg_def)
  next
    case SEND_FAILURE
    with get_message_valid [OF q] c st show ?thesis
      by (simp add: send_message_def queue_heads_live set_queue_heads_same)
  qed
qed

lemma buf_valid_buffer: "buf_valid s x = (\<exists>b. map_option b_buffer (buf_heap s x) = Some (Some b))"
  by (cases "buf_heap s x") (auto simp add: buf_valid_def)

lemma buf_text_buffer:
  "buf_text s x = (case map_option b_buffer (buf_heap s x) of Some (Some b) \<Rightarrow> b | _ \<Rightarrow> [])"
  by (cases "buf_heap s x") (auto simp add: buf_text_def split: option.splits)

lemma same_buffer_live:
  "map_option b_buffer X = map_option b_buffer Y \<Longrightarrow> Y = Some e \<Longrightarrow>
   \<exists>e'. X = Some e' \<and> b_buffer e' = b_buffer e"
  by (cases X) auto

lemma send_message_append:
  assumes inv: "sendq s cs p c (h # t)" and fresh: "buf_heap s a = None"
  shows "\<exists>H. send_message p (Some b) os (Some (a, j)) True s =
                send_message p None os m1 m2
                  (s\<lparr>buf_heap := H, conn_heap := (conn_heap s)(p \<mapsto> c\<lparr>c_msglast := Some a\<rparr>)\<rparr>) \<and>
             sendq (s\<lparr>buf_heap := H, conn_heap := (conn_heap s)(p \<mapsto> c\<lparr>c_msglast := Some a\<rparr>)\<rparr>)
                cs p (c\<lparr>c_msglast := Some a\<rparr>) (h # t @ [a]) \<and>
             H a = Some (j\<lparr>b_buffer := Some b, b_msgix := c_msgix c, b_next := None\<rparr>) \<and>
             (\<forall>x. x \<noteq> a \<longrightarrow> map_option b_buffer (H x) = map_option b_buffer (buf_heap s x))"
proof -
  from inv have c: "conn_heap s p = Some c" and q: "queue s (c_msgfirst c) (c_msglast c) (h # t)"
    and v: "list_all (buf_valid s) (h # t)" and u: "unique_ports s cs" and p: "p \<in> set cs"
    by (simp_all add: sendq_def)
  from q have first: "c_msgfirst c = Some h"
    by (simp add: queue_def)
  from queue_add_message [OF q fresh, of "c_msgix c" b j] obtain H where
    add: "add_message (Some (c_msgfirst c)) (Some (c_msglast c)) (c_msgix c) (Some b) (Some (a, j)) True s =
            Some (0, Some (c_msgfirst c), Some (Some a), s\<lparr>buf_heap := H\<rparr>)"
    and qH: "queue (s\<lparr>buf_heap := H\<rparr>) (c_msgfirst c) (Some a) (h # t @ [a])"
    and Ha: "H a = Some (j\<lparr>b_buffer := Some b, b_msgix := c_msgix c, b_next := None\<rparr>)"
    and Hx: "\<forall>x. x \<noteq> a \<longrightarrow> map_option b_buffer (H x) = map_option b_buffer (buf_heap s x)"
    by (auto simp add: first)
  let ?c = "c\<lparr>c_msglast := Some a\<rparr>"
  let ?s = "s\<lparr>buf_heap := H, conn_heap := (conn_heap s)(p \<mapsto> ?c)\<rparr>"
  have qD: "queue ?s (c_msgfirst c) (Some a) (h # t @ [a])"
    using qH by (simp add: queue_def)
  from fresh v have ah: "a \<notin> set (h # t)"
    by (auto simp add: buf_valid_def list_all_iff)
  have valid: "buf_valid ?s x" if "x \<in> set (h # t @ [a])" for x
  proof (cases "x = a")
    case True
    with Ha show ?thesis
      by (simp add: buf_valid_def)
  next
    case False
    with that v have "buf_valid s x"
      by (auto simp add: list_all_iff)
    with Hx False show ?thesis
      by (simp add: buf_valid_buffer)
  qed
  have uD: "unique_ports ?s cs"
    using u c by (rule unique_ports_conn_upd) simp_all
  from uD p qD valid have sq: "sendq ?s cs p ?c (h # t @ [a])"
    by (simp add: sendq_def list_all_iff)
  from v obtain e hb where e: "buf_heap s h = Some e" "b_buffer e = Some hb"
    by (auto simp add: buf_valid_def split: option.splits)
  from ah Hx have "map_option b_buffer (H h) = map_option b_buffer (buf_heap s h)"
    by simp
  from same_buffer_live [OF this e(1)] e obtain e' where e': "H h = Some e'" "b_buffer e' = Some hb"
    by auto
  then have tx: "buf_text ?s h = hb"
    by (simp add: buf_text_def)
  obtain st bytes where st: "tcp_send_message hb (int (length hb)) (c_msgix c) os = (st, bytes)"
    by (cases "tcp_send_message hb (int (length hb)) (c_msgix c) os")
  from st tx have st': "tcp_send_message (buf_text ?s h) (int (length (buf_text ?s h))) (c_msgix ?c) os = (st, bytes)"
    by simp
  let ?s4 = "s\<lparr>buf_heap := H, wire := wire s @ [(c_sockfd c, bytes)],
               conn_heap := (conn_heap s)(p \<mapsto> c\<lparr>c_msglast := Some a, c_sntix := c_sntix c + 1\<rparr>)\<rparr>"
  from qH have "queue ?s4 (c_msgfirst c) (Some a) (h # t @ [a])"
    by (simp add: queue_def)
  note rm = queue_rem_message [OF this, THEN conjunct1]
  from c have ss: "s\<lparr>conn_heap := (conn_heap s)(p \<mapsto> c)\<rparr> = s"
    by (simp add: map_upd_triv)
  note R = send_message_head [OF sq st', of m1 m2]
  have "send_message p (Some b) os (Some (a, j)) True s = send_message p None os m1 m2 ?s"
  proof (cases st)
    case SEND_COMPLETE
    with get_message_valid [OF q v] c e e' st add ss rm show ?thesis
      unfolding R SEND_COMPLETE
      by (simp add: send_message_def queue_heads_live conn_update_live
            set_queue_heads_live set_queue_heads_same)
  next
    case SEND_BLOCKED
    with get_message_valid [OF q v] c e e' st add ss show ?thesis
      unfolding R SEND_BLOCKED
      by (simp add: send_message_def queue_heads_live conn_update_live
            set_queue_heads_live set_queue_heads_same logmsg_def)
  next
    case SEND_FAILURE
    with get_message_valid [OF q v] c e e' st add ss show ?thesis
      unfolding R SEND_FAILURE
      by (simp add: send_message_def queue_heads_live set_queue_heads_live set_queue_heads_same
            logmsg_def)
  qed
  with sq Ha Hx show ?thesis
    by blast
qed

lemma requeued_same:
  assumes "queue s (c_msgfirst c) (c_msglast c) xs"
  shows "requeued c xs = c"
proof -
  from assms have "c_msgfirst c = headp xs" "c_msglast c = lastp None xs"
    by (auto simp add: queue_def dest: qseg_head)
  then show ?thesis
    by (cases c) (simp add: requeued_def)
qed

lemma conn_port_logmsg [simp]: "conn_port (logmsg c f a s) = conn_port s"
  by (simp add: fun_eq_iff conn_port_def logmsg_def)

lemma unique_ports_logmsg [simp]: "unique_ports (logmsg c f a s) cs = unique_ports s cs"
  by (simp add: unique_ports_def registry_def) (simp add: logmsg_def)

lemma send_message_failed:
  assumes u: "unique_ports s cs" and p: "p \<in> set cs" and c: "conn_heap s p = Some c"
  shows "\<exists>s'. rem_connection (c_destport c) (logmsg cat f a s) \<bind> (\<lambda>s'. Some (- 1 :: int, s')) = Some (- 1, s') \<and>
              wire s' = wire s \<and> unique_ports s' (remove1 p cs) \<and> conn_heap s' p = None"
proof -
  from u have "unique_ports (logmsg cat f a s) cs"
    by simp
  moreover from c have "conn_heap (logmsg cat f a s) p = Some c"
    by (simp add: logmsg_def)
  ultimately obtain s' where "rem_connection (c_destport c) (logmsg cat f a s) = Some s'"
    "unique_ports s' (remove1 p cs)" "removed p c (logmsg cat f a s) s'"
    using rem_connection_self [OF _ p] by blast
  then show ?thesis
    by (simp add: removed_def logmsg_def)
qed

lemma send_message_pending:
  assumes inv: "sendq s cs p c (h # t)"
  shows "case tcp_send_message (buf_text s h) (int (length (buf_text s h))) (c_msgix c) os of
       (SEND_COMPLETE, bytes) \<Rightarrow>
         (\<exists>s'. send_message p None os m1 m2 s = Some (0, s') \<and>
               wire s' = wire s @ [(c_sockfd c, bytes)] \<and>
               sendq s' cs p (requeued (c\<lparr>c_sntix := c_sntix c + 1\<rparr>) t) t \<and>
               map (buf_text s') t = map (buf_text s) t)
     | (SEND_BLOCKED, bytes) \<Rightarrow>
         (\<exists>s'. send_message p None os m1 m2 s = Some (- 1, s') \<and>
               wire s' = wire s \<and>
               sendq s' cs p (requeued (c\<lparr>c_pndix := c_pndix c + 1\<rparr>) (h # t)) (h # t) \<and>
               map (buf_text s') (h # t) = map (buf_text s) (h # t))
     | (SEND_FAILURE, bytes) \<Rightarrow>
         (\<exists>s'. send_message p None os m1 m2 s = Some (- 1, s') \<and>
               wire s' = wire s \<and> unique_ports s' (remove1 p cs) \<and> conn_heap s' p = None)"
proof -
  from inv have c: "conn_heap s p = Some c" and q: "queue s (c_msgfirst c) (c_msglast c) (h # t)"
    and v: "list_all (buf_valid s) (h # t)" and u: "unique_ports s cs" and p: "p \<in> set cs"
    by (simp_all add: sendq_def)
  obtain st bytes where
    st: "tcp_send_message (buf_text s h) (int (length (buf_text s h))) (c_msgix c) os = (st, bytes)"
    by (cases "tcp_send_message (buf_text s h) (int (length (buf_text s h))) (c_msgix c) os")
  note R = send_message_head [OF inv st, of m1 m2]
  show ?thesis
  proof (cases st)
    case SEND_COMPLETE
    let ?c = "c\<lparr>c_sntix := c_sntix c + 1, c_msgfirst := headp t, c_msglast := lastp None t\<rparr>"
    let ?s = "s\<lparr>wire := wire s @ [(c_sockfd c, bytes)],
                conn_heap := (conn_heap s)(p \<mapsto> ?c), buf_heap := (buf_heap s)(h := None)\<rparr>"
    from q have ht: "h \<notin> set t"
      by (simp add: queue_def)
    from queue_rem_message [OF q] have "queue ?s (headp t) (lastp None t) t"
      by (simp add: queue_def)
    moreover have "unique_ports ?s cs"
      using u c by (rule unique_ports_conn_upd) simp_all
    moreover have "buf_valid ?s x = buf_valid s x" "buf_text ?s x = buf_text s x" if "x \<in> set t" for x
      using that ht by (auto simp add: buf_valid_def buf_text_def)
    ultimately have "sendq ?s cs p ?c t" "map (buf_text ?s) t = map (buf_text s) t"
      using p v by (simp_all add: sendq_def list_all_iff)
    with R st SEND_COMPLETE show ?thesis
      by (simp add: requeued_def)
  next
    case SEND_BLOCKED
    let ?c = "c\<lparr>c_pndix := c_pndix c + 1\<rparr>"
    let ?s = "(logmsg PRINT_ERROR ''socket sendmsg (port %u): blocked'' [c_destport c] s)
                \<lparr>conn_heap := (conn_heap s)(p \<mapsto> ?c)\<rparr>"
    have "unique_ports ?s cs"
      using u c by (rule unique_ports_conn_upd) (simp_all add: logmsg_def)
    moreover from q have "queue ?s (c_msgfirst c) (c_msglast c) (h # t)"
      by (simp add: queue_def logmsg_def)
    moreover have "buf_valid ?s = buf_valid s" "buf_text ?s = buf_text s"
      by (simp_all add: buf_valid_def buf_text_def logmsg_def fun_eq_iff)
    ultimately have sq: "sendq ?s cs p ?c (h # t)"
      and tx: "map (buf_text ?s) (h # t) = map (buf_text s) (h # t)"
      using p v by (simp_all add: sendq_def logmsg_def)
    from sq have "queue ?s (c_msgfirst ?c) (c_msglast ?c) (h # t)"
      by (simp add: sendq_def)
    from requeued_same [OF this] sq have "sendq ?s cs p (requeued ?c (h # t)) (h # t)"
      by simp
    moreover have "wire ?s = wire s"
      by (simp add: logmsg_def)
    ultimately show ?thesis
      using R st SEND_BLOCKED tx by simp
  next
    case SEND_FAILURE
    with send_message_failed [OF u p c] R st show ?thesis
      by simp
  qed
qed

lemma send_message_fresh:
  assumes inv: "sendq s cs p c []" and fresh: "buf_heap s a = None"
  shows "case tcp_send_message b (int (length b)) (c_msgix c) os of
       (SEND_COMPLETE, bytes) \<Rightarrow>
         (\<exists>s'. send_message p (Some b) os (Some (a, j)) True s = Some (0, s') \<and>
               wire s' = wire s @ [(c_sockfd c, bytes)] \<and>
               sendq s' cs p (requeued (c\<lparr>c_sntix := c_sntix c + 1\<rparr>) []) [])
     | (SEND_BLOCKED, bytes) \<Rightarrow>
         (\<exists>s'. send_message p (Some b) os (Some (a, j)) True s = Some (- 1, s') \<and>
               wire s' = wire s \<and>
               sendq s' cs p (requeued (c\<lparr>c_pndix := c_pndix c + 1\<rparr>) [a]) [a] \<and>
               buf_text s' a = b)
     | (SEND_FAILURE, bytes) \<Rightarrow>
         (\<exists>s'. send_message p (Some b) os (Some (a, j)) True s = Some (- 1, s') \<and>
               wire s' = wire s \<and> unique_ports s' (remove1 p cs) \<and> conn_heap s' p = None)"
proof -
  from inv have c: "conn_heap s p = Some c" and q: "queue s (c_msgfirst c) (c_msglast c) []"
    and u: "unique_ports s cs" and p: "p \<in> set cs"
    by (simp_all add: sendq_def)
  from q have heads: "c_msgfirst c = None" "c_msglast c = None"
    by (simp_all add: queue_def)
  obtain st bytes where st: "tcp_send_message b (int (length b)) (c_msgix c) os = (st, bytes)"
    by (cases "tcp_send_message b (int (length b)) (c_msgix c) os")
  note R = send_message_empty [OF inv st fresh, of j]
  show ?thesis
  proof (cases st)
    case SEND_COMPLETE
    let ?c = "c\<lparr>c_sntix := c_sntix c + 1\<rparr>"
    let ?s = "s\<lparr>wire := wire s @ [(c_sockfd c, bytes)], conn_heap := (conn_heap s)(p \<mapsto> ?c)\<rparr>"
    have "unique_ports ?s cs"
      using u c by (rule unique_ports_conn_upd) simp_all
    with p heads have sq: "sendq ?s cs p ?c []"
      by (simp add: sendq_def queue_def)
    then have "queue ?s (c_msgfirst ?c) (c_msglast ?c) []"
      by (simp add: sendq_def)
    from requeued_same [OF this] sq have "sendq ?s cs p (requeued ?c []) []"
      by simp
    with R st SEND_COMPLETE show ?thesis
      by simp
  next
    case SEND_BLOCKED
    let ?c = "c\<lparr>c_msgfirst := Some a, c_msglast := Some a, c_pndix := c_pndix c + 1\<rparr>"
    let ?s = "(logmsg PRINT_ERROR ''socket sendmsg (port %u): blocked'' [c_destport c] s)
                \<lparr>buf_heap := (buf_heap s)(a \<mapsto> j\<lparr>b_buffer := Some b, b_msgix := c_msgix c, b_next := None\<rparr>),
                 conn_heap := (conn_heap s)(p \<mapsto> ?c)\<rparr>"
    have "unique_ports ?s cs"
      using u c by (rule unique_ports_conn_upd) (simp_all add: logmsg_def)
    with p have sq: "sendq ?s cs p ?c [a]"
      by (simp add: sendq_def queue_def buf_valid_def logmsg_def)
    have "requeued (c\<lparr>c_pndix := c_pndix c + 1\<rparr>) [a] = ?c"
      by (simp add: requeued_def)
    with sq have "sendq ?s cs p (requeued (c\<lparr>c_pndix := c_pndix c + 1\<rparr>) [a]) [a]"
      by simp
    moreover have "wire ?s = wire s" "buf_text ?s a = b"
      by (simp_all add: logmsg_def buf_text_def)
    ultimately show ?thesis
      using R st SEND_BLOCKED by simp
  next
    case SEND_FAILURE
    with send_message_failed [OF u p c] R st show ?thesis
      by simp
  qed
qed

lemma requeued_twice [simp]: "requeued (requeued c xs) ys = requeued c ys"
  by (simp add: requeued_def)

lemma requeued_fields [simp]:
  "c_sntix (requeued c ys) = c_sntix c" "c_pndix (requeued c ys) = c_pndix c"
  "c_msgix (requeued c ys) = c_msgix c" "c_sockfd (requeued c ys) = c_sockfd c"
  "c_destport (requeued c ys) = c_destport c" "c_state (requeued c ys) = c_state c"
  by (simp_all add: requeued_def)

lemma send_message_step:
  assumes inv: "sendq s cs p c xs"
    and mem: "buffer \<noteq> None \<longrightarrow> (\<exists>a j. m1 = Some (a, j) \<and> buf_heap s a = None) \<and> m2"
  shows "case map (buf_text s) xs @ submitted buffer of
       [] \<Rightarrow> send_message p buffer os m1 m2 s = Some (- 1, s)
     | m # rest \<Rightarrow>
         (case tcp_send_message m (int (length m)) (c_msgix c) os of
            (SEND_COMPLETE, bytes) \<Rightarrow>
              (\<exists>s' ys. send_message p buffer os m1 m2 s = Some (0, s') \<and>
                 wire s' = wire s @ [(c_sockfd c, bytes)] \<and>
                 sendq s' cs p (requeued (c\<lparr>c_sntix := c_sntix c + 1\<rparr>) ys) ys \<and>
                 map (buf_text s') ys = rest)
          | (SEND_BLOCKED, bytes) \<Rightarrow>
              (\<exists>s' ys. send_message p buffer os m1 m2 s = Some (- 1, s') \<and>
                 wire s' = wire s \<and>
                 sendq s' cs p (requeued (c\<lparr>c_pndix := c_pndix c + 1\<rparr>) ys) ys \<and>
                 map (buf_text s') ys = m # rest)
          | (SEND_FAILURE, bytes) \<Rightarrow>
              (\<exists>s'. send_message p buffer os m1 m2 s = Some (- 1, s') \<and>
                 wire s' = wire s \<and> unique_ports s' (remove1 p cs) \<and> conn_heap s' p = None))"
proof (cases xs)
  case Nil
  show ?thesis
  proof (cases buffer)
    case None
    with Nil inv show ?thesis
      by (simp add: submitted_def send_message_nothing)
  next
    case (Some b)
    with mem obtain a j where m: "m1 = Some (a, j)" "m2" and fresh: "buf_heap s a = None"
      by auto
    obtain st bytes where st: "tcp_send_message b (int (length b)) (c_msgix c) os = (st, bytes)"
      by (cases "tcp_send_message b (int (length b)) (c_msgix c) os")
    note F = send_message_fresh [OF inv [unfolded Nil] fresh, of b os j, unfolded st]
    show ?thesis
    proof (cases st)
      case SEND_COMPLETE
      with F st Nil Some m show ?thesis
        by (auto simp add: submitted_def intro!: exI [of _ "[]"])
    next
      case SEND_BLOCKED
      with F st Nil Some m show ?thesis
        by (auto simp add: submitted_def intro!: exI [of _ "[a]"])
    next
      case SEND_FAILURE
      with F st Nil Some m show ?thesis
        by (auto simp add: submitted_def)
    qed
  qed
next
  case (Cons h t)
  note inv' = inv [unfolded Cons]
  obtain st bytes where
    st: "tcp_send_message (buf_text s h) (int (length (buf_text s h))) (c_msgix c) os = (st, bytes)"
    by (cases "tcp_send_message (buf_text s h) (int (length (buf_text s h))) (c_msgix c) os")
  show ?thesis
  proof (cases buffer)
    case None
    note P = send_message_pending [OF inv', of os m1 m2, unfolded st]
    let ?R = "(case st of
            SEND_COMPLETE \<Rightarrow>
              (\<exists>s' ys. send_message p buffer os m1 m2 s = Some (0, s') \<and>
                 wire s' = wire s @ [(c_sockfd c, bytes)] \<and>
                 sendq s' cs p (requeued (c\<lparr>c_sntix := c_sntix c + 1\<rparr>) ys) ys \<and>
                 map (buf_text s') ys = map (buf_text s) t)
          | SEND_BLOCKED \<Rightarrow>
              (\<exists>s' ys. send_message p buffer os m1 m2 s = Some (- 1, s') \<and>
                 wire s' = wire s \<and>
                 sendq s' cs p (requeued (c\<lparr>c_pndix := c_pndix c + 1\<rparr>) ys) ys \<and>
                 map (buf_text s') ys = buf_text s h # map (buf_text s) t)
          | SEND_FAILURE \<Rightarrow>
              (\<exists>s'. send_message p buffer os m1 m2 s = Some (- 1, s') \<and>
                 wire s' = wire s \<and> unique_ports s' (remove1 p cs) \<and> conn_heap s' p = None))"
    from Cons None st have goal: "?thesis = ?R"
      by (simp add: submitted_def del: map_eq_conv)
    have ?R
    proof (cases st)
      case SEND_COMPLETE
      with P None show ?thesis
        unfolding SEND_COMPLETE by (auto simp del: map_eq_conv intro!: exI [of _ t])
    next
      case SEND_BLOCKED
      with P None show ?thesis
        unfolding SEND_BLOCKED by (auto simp del: map_eq_conv intro!: exI [of _ "h # t"])
    next
      case SEND_FAILURE
      with P None show ?thesis
        unfolding SEND_FAILURE by simp
    qed
    with goal show ?thesis
      by (simp only:)
  next
    case (Some b)
    with mem obtain a j where m: "m1 = Some (a, j)" "m2" and fresh: "buf_heap s a = None"
      by auto
    let ?c = "c\<lparr>c_msglast := Some a\<rparr>"
    from send_message_append [OF inv' fresh, where b = b and j = j and os = os and ?m1.0 = None and ?m2.0 = False]
    obtain H where
      eq: "send_message p (Some b) os (Some (a, j)) True s =
             send_message p None os None False
              (s\<lparr>buf_heap := H, conn_heap := (conn_heap s)(p \<mapsto> ?c)\<rparr>)"
      and sq: "sendq (s\<lparr>buf_heap := H, conn_heap := (conn_heap s)(p \<mapsto> ?c)\<rparr>) cs p ?c (h # t @ [a])"
      and Ha: "H a = Some (j\<lparr>b_buffer := Some b, b_msgix := c_msgix c, b_next := None\<rparr>)"
      and Hx: "\<forall>x. x \<noteq> a \<longrightarrow> map_option b_buffer (H x) = map_option b_buffer (buf_heap s x)"
      by blast
    let ?s = "s\<lparr>buf_heap := H, conn_heap := (conn_heap s)(p \<mapsto> ?c)\<rparr>"
    from inv' fresh have ah: "a \<notin> set (h # t)"
      by (auto simp add: sendq_def buf_valid_def list_all_iff)
    have ta: "buf_text ?s a = b"
      using Ha by (simp add: buf_text_def)
    have tx: "buf_text ?s x = buf_text s x" if "x \<noteq> a" for x
      using Hx that by (simp add: buf_text_buffer)
    from ah have th: "buf_text ?s h = buf_text s h"
      by (intro tx) auto
    have tt: "map (buf_text ?s) t = map (buf_text s) t"
    proof (rule map_cong [OF refl])
      fix x assume "x \<in> set t"
      with ah have "x \<noteq> a"
        by auto
      then show "buf_text ?s x = buf_text s x"
        by (rule tx)
    qed
    have rq: "requeued (?c\<lparr>c_sntix := c_sntix ?c + 1\<rparr>) ys = requeued (c\<lparr>c_sntix := c_sntix c + 1\<rparr>) ys"
      "requeued (?c\<lparr>c_pndix := c_pndix ?c + 1\<rparr>) ys = requeued (c\<lparr>c_pndix := c_pndix c + 1\<rparr>) ys" for ys
      by (simp_all add: requeued_def)
    from st th have st': "tcp_send_message (buf_text ?s h) (int (length (buf_text ?s h))) (c_msgix ?c) os = (st, bytes)"
      by simp
    note P = send_message_pending [OF sq, of os None False, unfolded st' rq]
    show ?thesis
    proof (cases st)
      case SEND_COMPLETE
      with P obtain s' where "send_message p None os None False ?s = Some (0, s')"
        "wire s' = wire s @ [(c_sockfd c, bytes)]"
        "sendq s' cs p (requeued (c\<lparr>c_sntix := c_sntix c + 1\<rparr>) (t @ [a])) (t @ [a])"
        "map (buf_text s') (t @ [a]) = map (buf_text ?s) (t @ [a])"
        by auto
      with eq ta tt st SEND_COMPLETE Cons Some m show ?thesis
        by (auto simp add: submitted_def intro!: exI [of _ s'] exI [of _ "t @ [a]"])
    next
      case SEND_BLOCKED
      with P obtain s' where "send_message p None os None False ?s = Some (- 1, s')"
        "wire s' = wire s"
        "sendq s' cs p (requeued (c\<lparr>c_pndix := c_pndix c + 1\<rparr>) (h # t @ [a])) (h # t @ [a])"
        "map (buf_text s') (h # t @ [a]) = map (buf_text ?s) (h # t @ [a])"
        by auto
      with eq ta th tt st SEND_BLOCKED Cons Some m show ?thesis
        by (auto simp add: submitted_def intro!: exI [of _ s'] exI [of _ "h # t @ [a]"])
    next
      case SEND_FAILURE
      with P obtain s' where "send_message p None os None False ?s = Some (- 1, s')"
        "wire s' = wire s" "unique_ports s' (remove1 p cs)" "conn_heap s' p = None"
        by auto
      with eq st SEND_FAILURE Cons Some m show ?thesis
        by (auto simp add: submitted_def)
    qed
  qed
qed

lemma drain_queue_step:
  "send_message p None (os k) None False s = Some (ret, s') \<Longrightarrow>
   drain_queue p os k s = (if ret = 0 then drain_queue p os (Suc k) s' else Some s')"
  by (subst drain_queue.simps) simp

lemma conn_counters_same [simp]: "c\<lparr>c_sntix := c_sntix c, c_pndix := c_pndix c\<rparr> = c"
  by simp

lemma drain_queue_spec:
  "sendq s cs p c xs \<Longrightarrow> map (buf_text s) xs = q \<Longrightarrow>
   \<exists>s'. drain_queue p os k s = Some s' \<and>
     (case drain_spec q (c_msgix c) os k of
        (w, r) \<Rightarrow>
          wire s' = wire s @ map (Pair (c_sockfd c)) w \<and>
          (if r = Some SEND_FAILURE then unique_ports s' (remove1 p cs) \<and> conn_heap s' p = None
           else (\<exists>ys. sendq s' cs p
                        (requeued (c\<lparr>c_sntix := c_sntix c + int (length w),
                                      c_pndix := c_pndix c + (if r = None then 0 else 1)\<rparr>) ys) ys \<and>
                      map (buf_text s') ys = drop (length w) q)))"
proof (induction q arbitrary: s c xs k)
  case Nil
  then have xs: "xs = []"
    by simp
  from Nil(1) have "queue s (c_msgfirst c) (c_msglast c) xs"
    by (simp add: sendq_def)
  from requeued_same [OF this] Nil(1) xs have "sendq s cs p (requeued c []) []"
    by simp
  moreover from send_message_nothing [OF Nil(1) [unfolded xs]]
  have "drain_queue p os k s = Some s"
    by (simp add: drain_queue_step)
  ultimately show ?case
    by simp
next
  case (Cons m rest)
  note step = send_message_step [OF Cons.prems(1), of None None False "os k", unfolded Cons.prems(2)]
  obtain st bytes where st: "tcp_send_message m (int (length m)) (c_msgix c) (os k) = (st, bytes)"
    by (cases "tcp_send_message m (int (length m)) (c_msgix c) (os k)")
  show ?case
  proof (cases st)
    case SEND_COMPLETE
    with step st obtain s1 ys where s1: "send_message p None (os k) None False s = Some (0, s1)"
      "wire s1 = wire s @ [(c_sockfd c, bytes)]"
      "sendq s1 cs p (requeued (c\<lparr>c_sntix := c_sntix c + 1\<rparr>) ys) ys"
      "map (buf_text s1) ys = rest"
      by (auto simp add: submitted_def)
    let ?c1 = "requeued (c\<lparr>c_sntix := c_sntix c + 1\<rparr>) ys"
    obtain w r where d: "drain_spec rest (c_msgix c) os (Suc k) = (w, r)"
      by (cases "drain_spec rest (c_msgix c) os (Suc k)")
    from Cons.IH [OF s1(3) s1(4), of "Suc k"] d obtain s' where
      s': "drain_queue p os (Suc k) s1 = Some s'"
      "wire s' = wire s1 @ map (Pair (c_sockfd c)) w"
      "if r = Some SEND_FAILURE then unique_ports s' (remove1 p cs) \<and> conn_heap s' p = None
       else (\<exists>ys'. sendq s' cs p
                (requeued (?c1\<lparr>c_sntix := c_sntix ?c1 + int (length w),
                               c_pndix := c_pndix ?c1 + (if r = None then 0 else 1)\<rparr>) ys') ys' \<and>
                map (buf_text s') ys' = drop (length w) rest)"
      by auto
    have rq: "requeued (?c1\<lparr>c_sntix := c_sntix ?c1 + int (length w),
                               c_pndix := c_pndix ?c1 + (if r = None then 0 else 1)\<rparr>) ys' =
              requeued (c\<lparr>c_sntix := c_sntix c + int (length (bytes # w)),
                               c_pndix := c_pndix c + (if r = None then 0 else 1)\<rparr>) ys'" for ys'
      by (simp add: requeued_def add.commute add.left_commute)
    from s1(1) s' have "drain_queue p os k s = Some s'"
      by (simp add: drain_queue_step)
    with s' s1(2) st SEND_COMPLETE d show ?thesis
      unfolding rq by (cases r) (simp_all split: if_splits)
  next
    case SEND_BLOCKED
    with step st obtain s1 ys where s1: "send_message p None (os k) None False s = Some (- 1, s1)"
      "wire s1 = wire s"
      "sendq s1 cs p (requeued (c\<lparr>c_pndix := c_pndix c + 1\<rparr>) ys) ys"
      "map (buf_text s1) ys = m # rest"
      by (auto simp add: submitted_def)
    from s1(1) have "drain_queue p os k s = Some s1"
      by (simp add: drain_queue_step)
    with s1 st SEND_BLOCKED show ?thesis
      by auto
  next
    case SEND_FAILURE
    with step st obtain s1 where s1: "send_message p None (os k) None False s = Some (- 1, s1)"
      "wire s1 = wire s" "unique_ports s1 (remove1 p cs)" "conn_heap s1 p = None"
      by (auto simp add: submitted_def)
    from s1(1) have "drain_queue p os k s = Some s1"
      by (simp add: drain_queue_step)
    with s1 st SEND_FAILURE show ?thesis
      by simp
  qed
qed

lemma sendq_example:
  "sendq sending_example [1, 2, 3] 2
     ((conn_example 5 9002 (Some 3) (Some 1))\<lparr>c_msgix := 7, c_msgfirst := Some 13, c_msglast := Some 14\<rparr>)
     [13, 14]"
proof -
  have "unique_ports sending_example [1, 2, 3]"
    using unique_three
  proof (rule unique_ports_conn_upd)
    show "conn_heap three_connections 2 = Some (conn_example 5 9002 (Some 3) (Some 1))"
      by (simp add: example_defs)
  qed (simp_all add: sending_example_def conn_example_def)
  then show ?thesis
    by (simp add: sendq_def sending_example_def queue_def buf_valid_def buf_example_def lastp_def)
qed

text \<open>
  C4. Let \<open>p\<close> be a connection of the list with the send queue \<open>xs\<close> (all entries
  with a message), and let \<^verbatim>\<open>malloc\<close> succeed with a fresh entry when a new
  message is passed. Write \<open>q\<close> for the queued messages, oldest first, followed by the
  new message if there is one. \<^verbatim>\<open>send_message\<close> returns \<open>-1\<close> and changes nothing
  when \<open>q\<close> is empty. Otherwise the one message handed to \<^verbatim>\<open>tcp_send_message\<close> is
  the first of \<open>q\<close>: the head of the queue when the queue is not empty, and the new
  message only when it is. On \<^verbatim>\<open>SEND_COMPLETE\<close> the call returns \<open>0\<close>, what
  \<^verbatim>\<open>sendmsg\<close> accepted is on the wire, \<^verbatim>\<open>sntix\<close> is one more and the queue is
  the rest of \<open>q\<close>. On \<^verbatim>\<open>SEND_BLOCKED\<close> it returns \<open>-1\<close>, nothing is on the wire,
  \<^verbatim>\<open>pndix\<close> is one more and the queue is \<open>q\<close>, the head in place and the new
  message at the tail. On \<^verbatim>\<open>SEND_FAILURE\<close> it returns \<open>-1\<close> and the connection is
  gone from the list and freed. In the first two cases the connection list is as
  before and the entry differs from the old one in the counter and the list heads
  only.

  The loop \<^verbatim>\<open>while (! send_message (connection, 0))\<close> returns, and does what
  \<open>drain_spec\<close> says: it sends the queued messages from the head on while the sends
  complete, and stops at the first that does not, or when the queue is empty; the
  sent messages are on the wire in queue order, \<^verbatim>\<open>sntix\<close> has grown by their
  number, the queue is what is left, with the blocked message at its head and
  \<^verbatim>\<open>pndix\<close> one more if a send blocked; after a failure the connection is gone.
\<close>

theorem send_message_drain:
  assumes inv: "sendq s cs p c xs"
    and mem: "buffer \<noteq> None \<longrightarrow> (\<exists>a j. m1 = Some (a, j) \<and> buf_heap s a = None) \<and> m2"
  shows "(case map (buf_text s) xs @ submitted buffer of
       [] \<Rightarrow> send_message p buffer os m1 m2 s = Some (- 1, s)
     | m # rest \<Rightarrow>
         (case tcp_send_message m (int (length m)) (c_msgix c) os of
            (SEND_COMPLETE, bytes) \<Rightarrow>
              (\<exists>s' ys. send_message p buffer os m1 m2 s = Some (0, s') \<and>
                 wire s' = wire s @ [(c_sockfd c, bytes)] \<and>
                 sendq s' cs p (requeued (c\<lparr>c_sntix := c_sntix c + 1\<rparr>) ys) ys \<and>
                 map (buf_text s') ys = rest)
          | (SEND_BLOCKED, bytes) \<Rightarrow>
              (\<exists>s' ys. send_message p buffer os m1 m2 s = Some (- 1, s') \<and>
                 wire s' = wire s \<and>
                 sendq s' cs p (requeued (c\<lparr>c_pndix := c_pndix c + 1\<rparr>) ys) ys \<and>
                 map (buf_text s') ys = m # rest)
          | (SEND_FAILURE, bytes) \<Rightarrow>
              (\<exists>s'. send_message p buffer os m1 m2 s = Some (- 1, s') \<and>
                 wire s' = wire s \<and> unique_ports s' (remove1 p cs) \<and> conn_heap s' p = None))) \<and>
    (\<exists>s'. drain_queue p osf k s = Some s' \<and>
       (case drain_spec (map (buf_text s) xs) (c_msgix c) osf k of
          (w, r) \<Rightarrow>
            wire s' = wire s @ map (Pair (c_sockfd c)) w \<and>
            (if r = Some SEND_FAILURE then unique_ports s' (remove1 p cs) \<and> conn_heap s' p = None
             else (\<exists>ys. sendq s' cs p
                          (requeued (c\<lparr>c_sntix := c_sntix c + int (length w),
                                        c_pndix := c_pndix c + (if r = None then 0 else 1)\<rparr>) ys) ys \<and>
                        map (buf_text s') ys = drop (length w) (map (buf_text s) xs)))))"
  using send_message_step [OF inv mem] drain_queue_spec [OF inv refl] by (rule conjI)

lemmas sending_eval = sending_example_def three_connections_def empty_endpoint_def conn_example_def
  buf_example_def buf_text_def submitted_def tcp_send_message_def sent_then_blocked_def requeued_def
  frame_bytes_def header_bytes_def enc32_def

theorem send_message_drain_witness:
  "sendq sending_example [1, 2, 3] 2
     ((conn_example 5 9002 (Some 3) (Some 1))\<lparr>c_msgix := 7, c_msgfirst := Some 13, c_msglast := Some 14\<rparr>)
     [13, 14] \<and>
   buf_heap sending_example 15 = None \<and>
   (\<exists>s' ys. send_message 2 (Some [111, 107]) (- 1, EWOULDBLOCK) (Some (15, buf_example None 0 None)) True
                sending_example = Some (- 1, s') \<and>
      wire s' = [] \<and>
      sendq s' [1, 2, 3] 2
        ((conn_example 5 9002 (Some 3) (Some 1))
           \<lparr>c_msgix := 7, c_pndix := 1, c_msgfirst := headp ys, c_msglast := lastp None ys\<rparr>) ys \<and>
      map (buf_text s') ys = [[104, 105], [121, 111], [111, 107]]) \<and>
   (\<exists>s' ys. drain_queue 2 sent_then_blocked 0 sending_example = Some s' \<and>
      wire s' = [(5, [2, 0, 0, 0, 7, 0, 0, 0, 104, 105])] \<and>
      sendq s' [1, 2, 3] 2
        ((conn_example 5 9002 (Some 3) (Some 1))
           \<lparr>c_msgix := 7, c_sntix := 1, c_pndix := 1, c_msgfirst := headp ys, c_msglast := lastp None ys\<rparr>) ys \<and>
      map (buf_text s') ys = [[121, 111]])"
  using send_message_drain [OF sendq_example, of "Some [111, 107]" "Some (15, buf_example None 0 None)" True
      "(- 1, EWOULDBLOCK)" sent_then_blocked 0] sendq_example
  by (simp add: sending_eval)

section \<open>Results about the order of the messages\<close>


lemma queue_same_heap: "buf_heap s' = buf_heap s \<Longrightarrow> queue s' f l xs = queue s f l xs"
  by (simp add: queue_def)





















end
